theory Spec2Isabelle
  imports Complex_Main
begin

section \<open>The random source\<close>

text \<open>
  The Python modules draw from the process-wide generator of the \<^verbatim>\<open>random\<close> module.
  The embedding threads that generator through every call as an explicit value. It holds
  the future results of \<^verbatim>\<open>random.random()\<close>, the future standard normal variates behind
  \<^verbatim>\<open>random.gauss\<close> and the future picks of \<^verbatim>\<open>random.choice\<close> from a two-element list;
  drawing returns the head and the source advanced by one. Floats are read as reals.
\<close>

record RandomSource =
  uniforms :: "nat \<Rightarrow> real"
  normals :: "nat \<Rightarrow> real"
  coins :: "nat \<Rightarrow> bool"

definition random_random :: "RandomSource \<Rightarrow> real \<times> RandomSource" where
  "random_random g = (uniforms g 0, g\<lparr>uniforms := (\<lambda>n. uniforms g (Suc n))\<rparr>)"

text \<open>\<^verbatim>\<open>random.uniform(a, b)\<close> is \<^verbatim>\<open>a + (b - a) * random()\<close>.\<close>

definition random_uniform :: "real \<Rightarrow> real \<Rightarrow> RandomSource \<Rightarrow> real \<times> RandomSource" where
  "random_uniform a b g = (a + (b - a) * uniforms g 0, snd (random_random g))"

text \<open>\<^verbatim>\<open>random.gauss(mu, sigma)\<close> is \<^verbatim>\<open>mu + z * sigma\<close> for the next normal variate \<^verbatim>\<open>z\<close>.\<close>

definition random_gauss :: "real \<Rightarrow> real \<Rightarrow> RandomSource \<Rightarrow> real \<times> RandomSource" where
  "random_gauss mu sigma g =
     (mu + normals g 0 * sigma, g\<lparr>normals := (\<lambda>n. normals g (Suc n))\<rparr>)"

definition random_choice :: "'a \<Rightarrow> 'a \<Rightarrow> RandomSource \<Rightarrow> 'a \<times> RandomSource" where
  "random_choice x y g =
     (if coins g 0 then y else x, g\<lparr>coins := (\<lambda>n. coins g (Suc n))\<rparr>)"

text \<open>The results of \<^verbatim>\<open>random.random()\<close> lie in the half-open unit interval.\<close>

definition unit_draws :: "RandomSource \<Rightarrow> bool" where
  "unit_draws g = (\<forall>n. 0 \<le> uniforms g n \<and> uniforms g n < 1)"

section \<open>Temporal entropy (temporal\_entropy.py)\<close>

datatype ActivityType =
    READING_WORD | READING_SENTENCE | READING_PARAGRAPH | THINKING
  | TYPING_CHAR | TYPING_WORD | MOUSE_MOVE | CLICK_DELAY
  | PAGE_LOAD | FORM_FILL | DECISION | SCROLL_PAUSE

record TimingProfile =
  mean :: real
  std_dev :: real
  min_value :: real
  max_value :: real

text \<open>The table \<^verbatim>\<open>TemporalEntropy.PROFILES\<close>: one entry for every member of the enum.\<close>

fun PROFILES :: "ActivityType \<Rightarrow> TimingProfile" where
  "PROFILES READING_WORD =
     \<lparr>mean = 24/100, std_dev = 8/100, min_value = 10/100, max_value = 50/100\<rparr>"
| "PROFILES READING_SENTENCE =
     \<lparr>mean = 25/10, std_dev = 8/10, min_value = 1, max_value = 5\<rparr>"
| "PROFILES READING_PARAGRAPH =
     \<lparr>mean = 8, std_dev = 25/10, min_value = 3, max_value = 15\<rparr>"
| "PROFILES THINKING =
     \<lparr>mean = 15/10, std_dev = 5/10, min_value = 5/10, max_value = 3\<rparr>"
| "PROFILES DECISION =
     \<lparr>mean = 25/10, std_dev = 1, min_value = 8/10, max_value = 5\<rparr>"
| "PROFILES TYPING_CHAR =
     \<lparr>mean = 15/100, std_dev = 5/100, min_value = 8/100, max_value = 30/100\<rparr>"
| "PROFILES TYPING_WORD =
     \<lparr>mean = 75/100, std_dev = 25/100, min_value = 30/100, max_value = 150/100\<rparr>"
| "PROFILES MOUSE_MOVE =
     \<lparr>mean = 50/100, std_dev = 15/100, min_value = 20/100, max_value = 1\<rparr>"
| "PROFILES CLICK_DELAY =
     \<lparr>mean = 15/100, std_dev = 5/100, min_value = 5/100, max_value = 40/100\<rparr>"
| "PROFILES PAGE_LOAD =
     \<lparr>mean = 2, std_dev = 5/10, min_value = 1, max_value = 4\<rparr>"
| "PROFILES FORM_FILL =
     \<lparr>mean = 15/10, std_dev = 5/10, min_value = 5/10, max_value = 3\<rparr>"
| "PROFILES SCROLL_PAUSE =
     \<lparr>mean = 12/10, std_dev = 4/10, min_value = 3/10, max_value = 25/10\<rparr>"

text \<open>
  \<^verbatim>\<open>generate_delay(activity, multiplier, randomness_factor)\<close>: one Gaussian draw around
  the scaled mean, clamped by \<^verbatim>\<open>max(min_value, min(max_value, delay))\<close>.
\<close>

definition generate_delay ::
  "ActivityType \<Rightarrow> real \<Rightarrow> real \<Rightarrow> RandomSource \<Rightarrow> real \<times> RandomSource" where
  "generate_delay activity multiplier randomness_factor g =
     (let profile = PROFILES activity;
          (delay, g') = random_gauss (mean profile * multiplier)
                          (std_dev profile * randomness_factor) g
      in (max (min_value profile) (min (max_value profile) delay), g'))"

record TimingBudget =
  total_budget :: real
  remaining_budget :: real
  actions_taken :: int

definition TimingBudget_init :: "real \<Rightarrow> TimingBudget" where
  "TimingBudget_init total_budget_seconds =
     \<lparr>total_budget = total_budget_seconds,
      remaining_budget = total_budget_seconds,
      actions_taken = 0\<rparr>"

text \<open>
  The body of the \<^verbatim>\<open>for _ in range(count)\<close> loop of \<^verbatim>\<open>allocate\<close>: draw a delay with the
  batch's scale, append it, subtract it from the remaining budget, count the action.
\<close>

fun allocate_loop ::
  "ActivityType \<Rightarrow> real \<Rightarrow> nat \<Rightarrow> real list \<Rightarrow> TimingBudget \<Rightarrow> RandomSource
     \<Rightarrow> real list \<times> TimingBudget \<times> RandomSource" where
  "allocate_loop activity scale 0 delays b g = (delays, b, g)"
| "allocate_loop activity scale (Suc n) delays b g =
     (let (delay, g') = generate_delay activity scale 1 g
      in allocate_loop activity scale n (delays @ [delay])
           (b\<lparr>remaining_budget := remaining_budget b - delay,
              actions_taken := actions_taken b + 1\<rparr>) g')"

text \<open>
  \<^verbatim>\<open>TimingBudget.allocate(activity, count)\<close>. \<^verbatim>\<open>[0.0] * count\<close> and \<^verbatim>\<open>range(count)\<close> are
  empty for a negative count.
\<close>

definition allocate ::
  "TimingBudget \<Rightarrow> ActivityType \<Rightarrow> int \<Rightarrow> RandomSource
     \<Rightarrow> real list \<times> TimingBudget \<times> RandomSource" where
  "allocate b activity count g =
     (if remaining_budget b \<le> 0 then (replicate (nat count) 0, b, g)
      else
        let profile = PROFILES activity;
            ideal_time = mean profile * of_int count;
            scale = (if ideal_time > remaining_budget b
                     then remaining_budget b / ideal_time else 1)
        in allocate_loop activity scale (nat count) [] b g)"

definition get_remaining_time :: "TimingBudget \<Rightarrow> real" where
  "get_remaining_time b = max 0 (remaining_budget b)"

section \<open>Kinematic mouse movement (kinematic\_mouse.py)\<close>

text \<open>
  What the Python code raises, as values. An exception raised by the browser interface
  carries its message, which is what \<^verbatim>\<open>str(e)\<close> returns.
\<close>

datatype page_error = PageError string

primrec str_of_error :: "page_error \<Rightarrow> string" where
  "str_of_error (PageError msg) = msg"

datatype py_error =
  ValueError | ZeroDivisionError | IndexError | TypeError | PageException page_error

text \<open>The dataclass \<^verbatim>\<open>Point\<close>; its fields \<^verbatim>\<open>x\<close> and \<^verbatim>\<open>y\<close> are \<open>px\<close> and \<open>py\<close> here.\<close>

record Point =
  px :: real
  py :: real

definition distance_to :: "Point \<Rightarrow> Point \<Rightarrow> real" where
  "distance_to p q = sqrt ((px p - px q)\<^sup>2 + (py p - py q)\<^sup>2)"

definition calculate_point :: "real \<Rightarrow> Point \<Rightarrow> Point \<Rightarrow> Point \<Rightarrow> Point \<Rightarrow> Point" where
  "calculate_point t p0 p1 p2 p3 =
     (let u = 1 - t; tt = t * t; uu = u * u; uuu = uu * u; ttt = tt * t
      in \<lparr>px = uuu * px p0 + 3 * uu * t * px p1 + 3 * u * tt * px p2 + ttt * px p3,
          py = uuu * py p0 + 3 * uu * t * py p1 + 3 * u * tt * py p2 + ttt * py p3\<rparr>)"

text \<open>
  \<^verbatim>\<open>BezierCurve.generate_control_points\<close>. The eight draws are taken in the order in
  which Python evaluates them.
\<close>

definition generate_control_points ::
  "Point \<Rightarrow> Point \<Rightarrow> real \<Rightarrow> RandomSource \<Rightarrow> (Point \<times> Point) \<times> RandomSource" where
  "generate_control_points start endp randomness g0 =
     (let mid_x = (px start + px endp) / 2;
          mid_y = (py start + py endp) / 2;
          dx = px endp - px start;
          dy = py endp - py start;
          distance = sqrt (dx\<^sup>2 + dy\<^sup>2);
          perp_x = (if distance > 0 then - dy / distance else - dy);
          perp_y = (if distance > 0 then dx / distance else dx);
          (depth_draw, g1) = random_uniform (1/10) (3/10) g0;
          curve_depth = distance * depth_draw * randomness;
          (offset_direction, g2) = random_choice (- 1) 1 g1;
          (cp1_offset_ratio, g3) = random_uniform (2/10) (4/10) g2;
          (j1x, g4) = random_uniform (5/10) 1 g3;
          (j1y, g5) = random_uniform (5/10) 1 g4;
          cp1 = \<lparr>px = px start + dx * cp1_offset_ratio
                         + perp_x * curve_depth * offset_direction * j1x,
                 py = py start + dy * cp1_offset_ratio
                         + perp_y * curve_depth * offset_direction * j1y\<rparr>;
          (cp2_offset_ratio, g6) = random_uniform (6/10) (8/10) g5;
          (j2x, g7) = random_uniform (5/10) 1 g6;
          (j2y, g8) = random_uniform (5/10) 1 g7;
          cp2 = \<lparr>px = px start + dx * cp2_offset_ratio
                         + perp_x * curve_depth * offset_direction * j2x,
                 py = py start + dy * cp2_offset_ratio
                         + perp_y * curve_depth * offset_direction * j2y\<rparr>
      in ((cp1, cp2), g8))"

definition A_CONSTANT :: real where
  "A_CONSTANT = 0"

definition B_CONSTANT :: real where
  "B_CONSTANT = 150"

text \<open>
  \<^verbatim>\<open>FittsLaw.calculate_movement_time\<close>. A width that is zero or negative is replaced
  by 1; \<^verbatim>\<open>math.log2\<close> raises \<^verbatim>\<open>ValueError\<close> on an argument that is not positive.
\<close>

definition calculate_movement_time ::
  "real \<Rightarrow> real \<Rightarrow> RandomSource \<Rightarrow> py_error + (real \<times> RandomSource)" where
  "calculate_movement_time distance target_width g =
     (let target_width' = (if target_width \<le> 0 then 1 else target_width);
          arg = distance / target_width' + 1
      in if arg \<le> 0 then Inl ValueError
         else
           let index_of_difficulty = log 2 arg;
               movement_time = A_CONSTANT + B_CONSTANT * index_of_difficulty;
               (randomness, g') = random_uniform (8/10) (12/10) g
           in Inr (movement_time * randomness, g'))"

definition apply_tremor :: "Point \<Rightarrow> real \<Rightarrow> RandomSource \<Rightarrow> Point \<times> RandomSource" where
  "apply_tremor point intensity g =
     (let (tremor_x, g1) = random_gauss 0 intensity g;
          (tremor_y, g2) = random_gauss 0 intensity g1
      in (\<lparr>px = px point + tremor_x, py = py point + tremor_y\<rparr>, g2))"

definition ease_in_out_cubic :: "real \<Rightarrow> real" where
  "ease_in_out_cubic t =
     (if t < 1/2 then 4 * t * t * t else 1 - (- 2 * t + 2) ^ 3 / 2)"

definition min_steps :: real where
  "min_steps = 10"

definition max_steps :: real where
  "max_steps = 100"

definition overshoot_probability :: real where
  "overshoot_probability = 10/100"

text \<open>\<^verbatim>\<open>int(max(self.min_steps, min(self.max_steps, distance / 10)))\<close>.\<close>

definition num_steps_of :: "Point \<Rightarrow> Point \<Rightarrow> nat" where
  "num_steps_of start endp =
     nat \<lfloor>max min_steps (min max_steps (distance_to start endp / 10))\<rfloor>"

type_synonym sample = "real \<times> real \<times> real"

text \<open>
  The \<^verbatim>\<open>for i in range(num_steps + 1)\<close> loop of \<^verbatim>\<open>_generate_normal_path\<close>, over the
  list of the indices still to visit.
\<close>

fun normal_path_loop ::
  "real \<Rightarrow> Point \<Rightarrow> Point \<Rightarrow> Point \<Rightarrow> Point \<Rightarrow> nat \<Rightarrow> nat list \<Rightarrow> sample list
     \<Rightarrow> RandomSource \<Rightarrow> sample list \<times> RandomSource" where
  "normal_path_loop movement_time_ms start cp1 cp2 endp num_steps [] path g = (path, g)"
| "normal_path_loop movement_time_ms start cp1 cp2 endp num_steps (i # rest) path g =
     (let t = real i / real num_steps;
          time_progress = ease_in_out_cubic t;
          timestamp = movement_time_ms * time_progress;
          point = calculate_point t start cp1 cp2 endp;
          tremor_intensity = (if i > 0 \<and> i < num_steps then 3/10 else 1/10);
          (point', g') = apply_tremor point tremor_intensity g
      in normal_path_loop movement_time_ms start cp1 cp2 endp num_steps rest
           (path @ [(px point', py point', timestamp)]) g')"

definition generate_normal_path ::
  "Point \<Rightarrow> Point \<Rightarrow> real \<Rightarrow> RandomSource \<Rightarrow> sample list \<times> RandomSource" where
  "generate_normal_path start endp movement_time_ms g =
     (let ((cp1, cp2), g1) = generate_control_points start endp (3/10) g;
          num_steps = num_steps_of start endp
      in normal_path_loop movement_time_ms start cp1 cp2 endp num_steps
           [0 ..< num_steps + 1] [] g1)"

text \<open>
  \<^verbatim>\<open>_generate_overshoot_path\<close>. \<^verbatim>\<open>path1[-1]\<close> raises \<^verbatim>\<open>IndexError\<close> on an empty list;
  \<^verbatim>\<open>path2_adjusted[1:]\<close> is \<open>tl\<close>.
\<close>

definition generate_overshoot_path ::
  "Point \<Rightarrow> Point \<Rightarrow> real \<Rightarrow> RandomSource \<Rightarrow> py_error + (sample list \<times> RandomSource)" where
  "generate_overshoot_path start endp movement_time_ms g =
     (let (overshoot_ratio, g1) = random_uniform (105/100) (115/100) g;
          dx = px endp - px start;
          dy = py endp - py start;
          overshoot_point = \<lparr>px = px start + dx * overshoot_ratio,
                             py = py start + dy * overshoot_ratio\<rparr>;
          (path1, g2) = generate_normal_path start overshoot_point
                          (movement_time_ms * (7/10)) g1;
          (path2, g3) = generate_normal_path overshoot_point endp
                          (movement_time_ms * (3/10)) g2
      in if path1 = [] then Inl IndexError
         else
           let last_timestamp = snd (snd (last path1));
               path2_adjusted = map (\<lambda>(sx, sy, t). (sx, sy, t + last_timestamp)) path2
           in Inr (path1 @ tl path2_adjusted, g3))"

text \<open>
  \<^verbatim>\<open>generate_path(start, end, target_size)\<close>; \<open>None\<close> stands for the omitted target size.
\<close>

definition generate_path ::
  "real \<times> real \<Rightarrow> real \<times> real \<Rightarrow> real option \<Rightarrow> RandomSource
     \<Rightarrow> py_error + (sample list \<times> RandomSource)" where
  "generate_path start endp target_size g =
     (let start_point = \<lparr>px = fst start, py = snd start\<rparr>;
          end_point = \<lparr>px = fst endp, py = snd endp\<rparr>;
          distance = distance_to start_point end_point;
          target_size' = (case target_size of
                            None \<Rightarrow> max 10 (distance * (5/100))
                          | Some s \<Rightarrow> s)
      in case calculate_movement_time distance target_size' g of
           Inl e \<Rightarrow> Inl e
         | Inr (base_movement_time, g1) \<Rightarrow>
             (let (r, g2) = random_random g1;
                  should_overshoot = (r < overshoot_probability)
              in if should_overshoot
                 then generate_overshoot_path start_point end_point base_movement_time g2
                 else Inr (generate_normal_path start_point end_point base_movement_time g2)))"

text \<open>
  Two views used to state the properties of a path: the \<^verbatim>\<open>timestamp_ms\<close> components of
  its samples, and the list of eased time stamps \<open>movement_time_ms * ease(i / n)\<close> for
  \<open>i = 0, ..., n\<close>.
\<close>

definition timestamps :: "sample list \<Rightarrow> real list" where
  "timestamps path = map (\<lambda>(sx, sy, t). t) path"

definition eased_times :: "real \<Rightarrow> nat \<Rightarrow> real list" where
  "eased_times movement_time_ms n =
     map (\<lambda>i. movement_time_ms * ease_in_out_cubic (real i / real n)) [0 ..< n + 1]"

text \<open>
  Two fixed random sources for evaluating the model: every uniform draw is 1/2, or every
  uniform draw is 1/20; the normal variates are 0 and the two-way choices take the first
  element.
\<close>

definition steady_source :: RandomSource where
  "steady_source = \<lparr>uniforms = (\<lambda>n. 1/2), normals = (\<lambda>n. 0), coins = (\<lambda>n. False)\<rparr>"

definition low_source :: RandomSource where
  "low_source = \<lparr>uniforms = (\<lambda>n. 1/20), normals = (\<lambda>n. 0), coins = (\<lambda>n. False)\<rparr>"

section \<open>Element safety (reading\_mimicry.py)\<close>

text \<open>
  What the two JavaScript snippets read from an element: its computed style and its
  bounding rectangle, its class and id strings. \<^verbatim>\<open>parseFloat\<close> and \<^verbatim>\<open>parseInt\<close> are
  browser functions; the snapshot holds their results, with \<open>None\<close> for \<^verbatim>\<open>NaN\<close>
  (for instance \<^verbatim>\<open>parseInt("auto")\<close>). \<open>style_left\<close> and \<open>style_top\<close> are
  \<^verbatim>\<open>parseInt(style.left)\<close> and \<^verbatim>\<open>parseInt(style.top)\<close>; \<open>element_id\<close> is \<^verbatim>\<open>element.id\<close>.
\<close>

record ElementSnapshot =
  display :: string
  visibility :: string
  opacity :: "real option"
  zIndex :: "int option"
  position :: string
  style_left :: "int option"
  style_top :: "int option"
  rect_left :: real
  rect_top :: real
  rect_right :: real
  rect_bottom :: real
  rect_width :: real
  rect_height :: real
  className :: string
  element_id :: string

record Window =
  innerWidth :: real
  innerHeight :: real

text \<open>
  JavaScript comparisons with a number that may be \<^verbatim>\<open>NaN\<close>: every comparison with
  \<^verbatim>\<open>NaN\<close> is false, and \<^verbatim>\<open>v || 0\<close> is 0 when \<^verbatim>\<open>v\<close> is \<^verbatim>\<open>NaN\<close> or 0.
\<close>

definition js_gt :: "('a::linorder) option \<Rightarrow> 'a \<Rightarrow> bool" where
  "js_gt v c = (case v of None \<Rightarrow> False | Some a \<Rightarrow> a > c)"

definition js_lt :: "('a::linorder) option \<Rightarrow> 'a \<Rightarrow> bool" where
  "js_lt v c = (case v of None \<Rightarrow> False | Some a \<Rightarrow> a < c)"

definition js_eq :: "'a option \<Rightarrow> 'a \<Rightarrow> bool" where
  "js_eq v c = (case v of None \<Rightarrow> False | Some a \<Rightarrow> a = c)"

definition js_or_zero :: "int option \<Rightarrow> int" where
  "js_or_zero v = (case v of None \<Rightarrow> 0 | Some a \<Rightarrow> if a = 0 then 0 else a)"

text \<open>
  The regular expression \<^verbatim>\<open>/hidden|trap|honeypot|bot-trap/i\<close>: some alternative occurs
  somewhere in the string, letters compared without case. Without the \<^verbatim>\<open>u\<close> flag only
  ASCII letters fold onto ASCII letters.
\<close>

definition to_lower :: "char \<Rightarrow> char" where
  "to_lower c =
     (case map_of (zip ''ABCDEFGHIJKLMNOPQRSTUVWXYZ'' ''abcdefghijklmnopqrstuvwxyz'') c of
        Some l \<Rightarrow> l
      | None \<Rightarrow> c)"

fun starts_with :: "string \<Rightarrow> string \<Rightarrow> bool" where
  "starts_with [] s = True"
| "starts_with (p # ps) [] = False"
| "starts_with (p # ps) (c # cs) = (p = c \<and> starts_with ps cs)"

fun contains :: "string \<Rightarrow> string \<Rightarrow> bool" where
  "contains p [] = starts_with p []"
| "contains p (c # cs) = (starts_with p (c # cs) \<or> contains p cs)"

definition trap_lexicon :: "string list" where
  "trap_lexicon = [''hidden'', ''trap'', ''honeypot'', ''bot-trap'']"

definition matches_trap :: "string \<Rightarrow> bool" where
  "matches_trap s = list_ex (\<lambda>w. contains w (map to_lower s)) trap_lexicon"

text \<open>The object \<^verbatim>\<open>checks\<close> that \<^verbatim>\<open>JS_VISIBILITY_CHECK\<close> returns.\<close>

record VisibilityChecks =
  chk_display :: bool
  chk_visibility :: bool
  chk_opacity :: bool
  chk_zIndex :: int
  chk_width :: bool
  chk_height :: bool
  chk_inViewport :: bool

definition JS_VISIBILITY_CHECK :: "Window \<Rightarrow> ElementSnapshot \<Rightarrow> VisibilityChecks" where
  "JS_VISIBILITY_CHECK w el =
     \<lparr>chk_display = (display el \<noteq> ''none''),
      chk_visibility = (visibility el \<noteq> ''hidden''),
      chk_opacity = js_gt (opacity el) 0,
      chk_zIndex = js_or_zero (zIndex el),
      chk_width = (rect_width el > 0),
      chk_height = (rect_height el > 0),
      chk_inViewport = (rect_top el < innerHeight w \<and> rect_bottom el > 0)\<rparr>"

text \<open>The object \<^verbatim>\<open>honeypotIndicators\<close> of \<^verbatim>\<open>JS_HONEYPOT_DETECTION\<close>, and its result.\<close>

record HoneypotIndicators =
  displayNone :: bool
  visibilityHidden :: bool
  opacityZero :: bool
  offScreenLeft :: bool
  offScreenTop :: bool
  offScreenRight :: bool
  negativeZIndex :: bool
  zeroWidth :: bool
  zeroHeight :: bool
  tinyElement :: bool
  suspiciousClass :: bool
  suspiciousId :: bool
  fixedNegative :: bool

definition object_values :: "HoneypotIndicators \<Rightarrow> bool list" where
  "object_values i =
     [displayNone i, visibilityHidden i, opacityZero i, offScreenLeft i, offScreenTop i,
      offScreenRight i, negativeZIndex i, zeroWidth i, zeroHeight i, tinyElement i,
      suspiciousClass i, suspiciousId i, fixedNegative i]"

record HoneypotResult =
  isHoneypot :: bool
  indicators :: HoneypotIndicators
  res_zIndex :: int
  res_visibility :: string
  res_opacity :: "real option"
  res_display :: string
  res_rect :: "real \<times> real \<times> real \<times> real"

definition JS_HONEYPOT_DETECTION :: "Window \<Rightarrow> ElementSnapshot \<Rightarrow> HoneypotResult" where
  "JS_HONEYPOT_DETECTION w el =
     (let honeypotIndicators =
            \<lparr>displayNone = (display el = ''none''),
             visibilityHidden = (visibility el = ''hidden''),
             opacityZero = js_eq (opacity el) 0,
             offScreenLeft = (rect_left el < - 100),
             offScreenTop = (rect_top el < - 100),
             offScreenRight = (rect_right el > innerWidth w + 100),
             negativeZIndex = js_lt (zIndex el) 0,
             zeroWidth = (rect_width el = 0),
             zeroHeight = (rect_height el = 0),
             tinyElement = (rect_width el < 2 \<and> rect_height el < 2),
             suspiciousClass = matches_trap (className el),
             suspiciousId = matches_trap (element_id el),
             fixedNegative = (position el = ''fixed'' \<and>
                              (js_lt (style_left el) (- 50) \<or> js_lt (style_top el) (- 50)))\<rparr>;
          isHoneypot = list_ex (\<lambda>v. v = True) (object_values honeypotIndicators)
      in \<lparr>isHoneypot = isHoneypot,
          indicators = honeypotIndicators,
          res_zIndex = js_or_zero (zIndex el),
          res_visibility = visibility el,
          res_opacity = opacity el,
          res_display = display el,
          res_rect = (rect_left el, rect_top el, rect_width el, rect_height el)\<rparr>)"

text \<open>
  The page as the two Python checks use it: \<^verbatim>\<open>page.query_selector\<close> raises, finds nothing
  or finds an element; \<^verbatim>\<open>page.evaluate(script, element)\<close> raises or runs the script on the
  element in the page's window. Every failure of the interface is an \<^verbatim>\<open>Exception\<close>.
\<close>

record Page =
  query_selector :: "string \<Rightarrow> page_error + ElementSnapshot option"
  evaluate_error :: "ElementSnapshot \<Rightarrow> page_error option"
  window :: Window

definition evaluate ::
  "Page \<Rightarrow> (Window \<Rightarrow> ElementSnapshot \<Rightarrow> 'a) \<Rightarrow> ElementSnapshot \<Rightarrow> page_error + 'a" where
  "evaluate page script el =
     (case evaluate_error page el of
        Some e \<Rightarrow> Inl e
      | None \<Rightarrow> Inr (script (window page) el))"

text \<open>The second component of the pairs the two checks return.\<close>

datatype 'a details = Error string | Details 'a

text \<open>
  \<^verbatim>\<open>HoneypotDetector.is_element_safe\<close>: the whole body is inside
  \<^verbatim>\<open>try: ... except Exception as e: return False, {"error": str(e)}\<close>.
\<close>

definition is_element_safe :: "Page \<Rightarrow> string \<Rightarrow> bool \<times> HoneypotResult details" where
  "is_element_safe page selector =
     (case query_selector page selector of
        Inl e \<Rightarrow> (False, Error (str_of_error e))
      | Inr None \<Rightarrow> (False, Error ''Element not found'')
      | Inr (Some element) \<Rightarrow>
          (case evaluate page JS_HONEYPOT_DETECTION element of
             Inl e \<Rightarrow> (False, Error (str_of_error e))
           | Inr result \<Rightarrow> (\<not> isHoneypot result, Details result)))"

text \<open>\<^verbatim>\<open>HoneypotDetector.is_element_visible\<close>, with the same \<^verbatim>\<open>try\<close> around its body.\<close>

definition is_element_visible :: "Page \<Rightarrow> string \<Rightarrow> bool \<times> VisibilityChecks details" where
  "is_element_visible page selector =
     (case query_selector page selector of
        Inl e \<Rightarrow> (False, Error (str_of_error e))
      | Inr None \<Rightarrow> (False, Error ''Element not found'')
      | Inr (Some element) \<Rightarrow>
          (case evaluate page JS_VISIBILITY_CHECK element of
             Inl e \<Rightarrow> (False, Error (str_of_error e))
           | Inr checks \<Rightarrow>
               (list_all (\<lambda>v. v)
                  [chk_display checks, chk_visibility checks, chk_opacity checks,
                   chk_width checks, chk_height checks, chk_zIndex checks \<ge> 0],
                Details checks)))"

text \<open>
  Fixtures: a page that finds the same element for every selector and never fails, a
  1920 by 1080 window, a plain block element of 100 by 40 at (10, 2000), below the
  bottom edge of that window, the same element at (10, 10) with an opacity of one
  millionth, a page that finds nothing and a page whose queries raise.
\<close>

definition desktop_window :: Window where
  "desktop_window = \<lparr>innerWidth = 1920, innerHeight = 1080\<rparr>"

definition static_page :: "ElementSnapshot \<Rightarrow> Page" where
  "static_page el =
     \<lparr>query_selector = (\<lambda>selector. Inr (Some el)),
      evaluate_error = (\<lambda>element. None),
      window = desktop_window\<rparr>"

definition below_fold_element :: ElementSnapshot where
  "below_fold_element =
     \<lparr>display = ''block'', visibility = ''visible'', opacity = Some 1, zIndex = Some 0,
      position = ''static'', style_left = None, style_top = None,
      rect_left = 10, rect_top = 2000, rect_right = 110, rect_bottom = 2040,
      rect_width = 100, rect_height = 40, className = ''headline'', element_id = ''main''\<rparr>"

definition faint_element :: ElementSnapshot where
  "faint_element =
     \<lparr>display = ''block'', visibility = ''visible'', opacity = Some (1/1000000),
      zIndex = Some 0, position = ''static'', style_left = None, style_top = None,
      rect_left = 10, rect_top = 10, rect_right = 110, rect_bottom = 50,
      rect_width = 100, rect_height = 40, className = ''headline'', element_id = ''main''\<rparr>"

definition empty_page :: Page where
  "empty_page =
     \<lparr>query_selector = (\<lambda>selector. Inr None),
      evaluate_error = (\<lambda>element. None),
      window = desktop_window\<rparr>"

definition failing_page :: Page where
  "failing_page =
     \<lparr>query_selector = (\<lambda>selector. Inl (PageError ''Target closed'')),
      evaluate_error = (\<lambda>element. None),
      window = desktop_window\<rparr>"

section \<open>Burst scrolling (reading\_mimicry.py)\<close>

text \<open>
  The dataclass \<^verbatim>\<open>ViewportInfo\<close>. Its fields are annotated \<^verbatim>\<open>int\<close>, which Python does not
  enforce: they hold the numbers that the page hands over.
\<close>

record ViewportInfo =
  width :: real
  height :: real
  scroll_y :: real
  scroll_x :: real
  max_scroll_y :: real
  max_scroll_x :: real

text \<open>
  The generated \<^verbatim>\<open>__init__\<close> of the dataclass, called with keyword arguments only, as
  \<^verbatim>\<open>ViewportInfo(**info)\<close> does: a keyword that is not a field and a field without a
  keyword both raise \<^verbatim>\<open>TypeError\<close>.
\<close>

definition ViewportInfo_fields :: "string list" where
  "ViewportInfo_fields =
     [''width'', ''height'', ''scroll_y'', ''scroll_x'', ''max_scroll_y'', ''max_scroll_x'']"

definition ViewportInfo_init :: "(string \<times> real) list \<Rightarrow> py_error + ViewportInfo" where
  "ViewportInfo_init kwargs =
     (if list_ex (\<lambda>k. k \<notin> set ViewportInfo_fields) (map fst kwargs)
      then Inl TypeError
      else
        case (map_of kwargs ''width'', map_of kwargs ''height'', map_of kwargs ''scroll_y'',
              map_of kwargs ''scroll_x'', map_of kwargs ''max_scroll_y'',
              map_of kwargs ''max_scroll_x'') of
          (Some a, Some b, Some c, Some d, Some e, Some f) \<Rightarrow>
            Inr \<lparr>width = a, height = b, scroll_y = c, scroll_x = d,
                 max_scroll_y = e, max_scroll_x = f\<rparr>
        | _ \<Rightarrow> Inl TypeError)"

text \<open>
  What the snippet of \<^verbatim>\<open>get_viewport_info\<close> reads in the browser, and the object it
  returns, with the keys as the snippet writes them.
\<close>

record ScrollWindow = Window +
  scrollY :: real
  scrollX :: real
  scrollHeight :: real
  scrollWidth :: real

definition JS_VIEWPORT_INFO :: "ScrollWindow \<Rightarrow> (string \<times> real) list" where
  "JS_VIEWPORT_INFO m =
     [(''width'', innerWidth m),
      (''height'', innerHeight m),
      (''scrollY'', scrollY m),
      (''scrollX'', scrollX m),
      (''maxScrollY'', scrollHeight m - innerHeight m),
      (''maxScrollX'', scrollWidth m - innerWidth m)]"

text \<open>Python's \<^verbatim>\<open>int(x)\<close> on a float: truncation towards zero.\<close>

definition py_int :: "real \<Rightarrow> int" where
  "py_int v = (if 0 \<le> v then \<lfloor>v\<rfloor> else \<lceil>v\<rceil>)"

text \<open>
  The page as \<^verbatim>\<open>burst_scroll\<close> uses it, over a state \<open>'w\<close> of the browser:
  \<^verbatim>\<open>page.evaluate\<close> of the viewport snippet raises or runs the snippet on the window;
  \<^verbatim>\<open>window.scrollTo(0, y)\<close> and \<^verbatim>\<open>wait_for_timeout(ms)\<close> may raise;
  \<^verbatim>\<open>_hover_interesting_content\<close> catches everything it raises and draws from the random
  source as it goes.
\<close>

record 'w ScrollPage =
  read_window :: "'w \<Rightarrow> py_error + ScrollWindow"
  scroll_to :: "real \<Rightarrow> 'w \<Rightarrow> py_error + 'w"
  wait_for_timeout :: "int \<Rightarrow> 'w \<Rightarrow> py_error + 'w"
  hover_interesting_content :: "'w \<Rightarrow> RandomSource \<Rightarrow> 'w \<times> RandomSource"

text \<open>\<^verbatim>\<open>ScrollBehavior.get_viewport_info\<close>: \<^verbatim>\<open>info = await page.evaluate(...)\<close>, then
  \<^verbatim>\<open>return ViewportInfo(**info)\<close>.\<close>

definition get_viewport_info :: "'w ScrollPage \<Rightarrow> 'w \<Rightarrow> py_error + ViewportInfo" where
  "get_viewport_info page w =
     (case read_window page w of
        Inl e \<Rightarrow> Inl e
      | Inr m \<Rightarrow> ViewportInfo_init (JS_VIEWPORT_INFO m))"

record ScrollBehavior =
  current_position :: real

text \<open>
  The block under \<^verbatim>\<open>if num_scrolls is None\<close>. The division is evaluated before the draw
  and raises \<^verbatim>\<open>ZeroDivisionError\<close> on a viewport of height 0.
\<close>

definition default_num_scrolls ::
  "ViewportInfo \<Rightarrow> RandomSource \<Rightarrow> py_error + (int \<times> RandomSource)" where
  "default_num_scrolls viewport g =
     (let viewport_height = height viewport;
          total_height = max_scroll_y viewport
      in if viewport_height = 0 then Inl ZeroDivisionError
         else
           let (u, g') = random_uniform (7/10) 1 g;
               num_scrolls = py_int ((total_height / viewport_height) * u)
           in Inr (max 3 num_scrolls, g'))"

text \<open>
  The \<^verbatim>\<open>for i in range(num_scrolls)\<close> loop, by the number of iterations left. An
  exception ends the run with that exception. The products and sums are taken over the
  reals, where the code computes with floats; every iteration begins with the poll of the
  viewport, and nothing stated below depends on the arithmetic after it.
\<close>

fun scroll_loop ::
  "'w ScrollPage \<Rightarrow> bool \<Rightarrow> nat \<Rightarrow> ScrollBehavior \<Rightarrow> 'w \<Rightarrow> RandomSource
     \<Rightarrow> py_error + (ScrollBehavior \<times> 'w \<times> RandomSource)" where
  "scroll_loop page reading_behavior 0 sb w g = Inr (sb, w, g)"
| "scroll_loop page reading_behavior (Suc n) sb w g =
     (case get_viewport_info page w of
        Inl e \<Rightarrow> Inl e
      | Inr viewport \<Rightarrow>
          (let (u, g1) = random_uniform (6/10) (12/10) g;
               scroll_amount = py_int (height viewport * u);
               new_position = min (current_position sb + of_int scroll_amount)
                                  (max_scroll_y viewport)
           in case scroll_to page new_position w of
                Inl e \<Rightarrow> Inl e
              | Inr w1 \<Rightarrow>
                  (let sb1 = sb\<lparr>current_position := new_position\<rparr>
                   in if new_position \<ge> max_scroll_y viewport then Inr (sb1, w1, g1)
                      else if reading_behavior then
                        (let (r, g2) = random_random g1;
                             (pause, g3) =
                               (if r < 3/10 then generate_delay READING_PARAGRAPH 1 1 g2
                                else generate_delay SCROLL_PAUSE 1 1 g2)
                         in case wait_for_timeout page (py_int (pause * 1000)) w1 of
                              Inl e \<Rightarrow> Inl e
                            | Inr w2 \<Rightarrow>
                                (let (r', g4) = random_random g3
                                 in if r' < 4/10
                                    then (let (w3, g5) = hover_interesting_content page w2 g4
                                          in scroll_loop page reading_behavior n sb1 w3 g5)
                                    else scroll_loop page reading_behavior n sb1 w2 g4))
                      else scroll_loop page reading_behavior n sb1 w1 g1)))"

text \<open>\<^verbatim>\<open>ScrollBehavior.burst_scroll(num_scrolls, reading_behavior)\<close>.\<close>

definition burst_scroll ::
  "'w ScrollPage \<Rightarrow> int option \<Rightarrow> bool \<Rightarrow> ScrollBehavior \<Rightarrow> 'w \<Rightarrow> RandomSource
     \<Rightarrow> py_error + (ScrollBehavior \<times> 'w \<times> RandomSource)" where
  "burst_scroll page num_scrolls reading_behavior sb w g =
     (case get_viewport_info page w of
        Inl e \<Rightarrow> Inl e
      | Inr viewport \<Rightarrow>
          (case (case num_scrolls of
                   None \<Rightarrow> default_num_scrolls viewport g
                 | Some n \<Rightarrow> Inr (n, g)) of
             Inl e \<Rightarrow> Inl e
           | Inr (n, g1) \<Rightarrow> scroll_loop page reading_behavior (nat n) sb w g1))"

text \<open>
  Fixture: a page whose window is always 1920 wide and \<open>h\<close> high over a document that
  scrolls 4000 further, on which no call of the interface fails and hovering does nothing.
\<close>

definition long_page :: "real \<Rightarrow> unit ScrollPage" where
  "long_page h =
     \<lparr>read_window = (\<lambda>w. Inr \<lparr>innerWidth = 1920, innerHeight = h, scrollY = 0, scrollX = 0,
                                   scrollHeight = 4000 + h, scrollWidth = 1920\<rparr>),
      scroll_to = (\<lambda>y w. Inr w),
      wait_for_timeout = (\<lambda>ms w. Inr w),
      hover_interesting_content = (\<lambda>w g. (w, g))\<rparr>"

section \<open>The orchestrator's interaction choice (infiltrator\_complete.py)\<close>

datatype Interaction = scroll_to_bottom | hover_over_images | read_comments_section

definition interactions :: "Interaction list" where
  "interactions = [scroll_to_bottom, hover_over_images, read_comments_section]"

text \<open>
  The index expression of \<^verbatim>\<open>_random_interaction\<close>,
  \<^verbatim>\<open>int(len(interactions) * hash(str(t)) % len(interactions))\<close>, as a function of the
  hash value \<open>h\<close>. \<^verbatim>\<open>*\<close> and \<^verbatim>\<open>%\<close> have the same precedence and associate to the left;
  Python's \<^verbatim>\<open>%\<close> by a positive modulus is \<open>mod\<close>.
\<close>

definition interaction_index :: "int \<Rightarrow> int" where
  "interaction_index h =
     (int (length interactions) * h) mod int (length interactions)"

text \<open>List indexing as Python does it: negative indices count from the end.\<close>

definition py_index :: "'a list \<Rightarrow> int \<Rightarrow> 'a option" where
  "py_index xs i =
     (let n = int (length xs); j = (if i < 0 then n + i else i)
      in if 0 \<le> j \<and> j < n then Some (xs ! nat j) else None)"

definition random_interaction :: "int \<Rightarrow> Interaction option" where
  "random_interaction h = py_index interactions (interaction_index h)"

section \<open>Properties of the temporal entropy model\<close>

lemma profile_bounds_ordered:
  "0 < min_value (PROFILES k) \<and> min_value (PROFILES k) \<le> max_value (PROFILES k)"
  by (cases k) simp_all

lemma generate_delay_value:
  "fst (generate_delay k m r g) =
     max (min_value (PROFILES k))
       (min (max_value (PROFILES k))
          (mean (PROFILES k) * m + normals g 0 * (std_dev (PROFILES k) * r)))"
  by (simp add: generate_delay_def random_gauss_def Let_def)

text \<open>
  Claim C3. For every activity kind, every pair of multipliers and every state of the
  random source, the delay returned by \<open>generate_delay\<close> lies between the profile's
  \<open>min_value\<close> and \<open>max_value\<close>; it is therefore positive and bounded by the largest
  ceiling of the table, 15 seconds.
\<close>

theorem generate_delay_in_profile_range:
  "min_value (PROFILES k) \<le> fst (generate_delay k m r g)
   \<and> fst (generate_delay k m r g) \<le> max_value (PROFILES k)
   \<and> 0 < fst (generate_delay k m r g)
   \<and> fst (generate_delay k m r g) \<le> 15"
proof -
  let ?d = "fst (generate_delay k m r g)"
  have lo: "min_value (PROFILES k) \<le> ?d"
    by (simp add: generate_delay_value)
  have hi: "?d \<le> max_value (PROFILES k)"
    using profile_bounds_ordered [of k] by (simp add: generate_delay_value)
  have pos: "0 < ?d"
    using profile_bounds_ordered [of k] lo by linarith
  have "max_value (PROFILES k) \<le> 15"
    by (cases k) simp_all
  with hi have "?d \<le> 15" by linarith
  with lo hi pos show ?thesis by simp
qed

section \<open>Properties of the interaction choice\<close>

text \<open>
  Claim C10. Whatever the hash of the clock reading is, the index expression of
  \<open>_random_interaction\<close> is 0, so the interaction chosen is always the first of the
  list, scroll-to-bottom, and never one of the other two.
\<close>

theorem random_interaction_constant:
  "interaction_index h = 0
   \<and> random_interaction h = Some scroll_to_bottom
   \<and> random_interaction h \<noteq> Some hover_over_images
   \<and> random_interaction h \<noteq> Some read_comments_section"
  by (simp add: interaction_index_def random_interaction_def py_index_def interactions_def)

section \<open>Properties of the planned trajectories\<close>

lemma ease_mono: "s \<le> t \<Longrightarrow> ease_in_out_cubic s \<le> ease_in_out_cubic t"
proof -
  assume st: "s \<le> t"
  have cube: "\<And>a b::real. a \<le> b \<Longrightarrow> a ^ 3 \<le> b ^ 3"
    by (rule power_mono_odd) simp_all
  consider "t < 1/2" | "s < 1/2" "1/2 \<le> t" | "1/2 \<le> s" using st by linarith
  then show ?thesis
  proof cases
    case 1
    then have "s < 1/2" using st by linarith
    moreover have "s ^ 3 \<le> t ^ 3" using st by (rule cube)
    ultimately show ?thesis using 1
      by (simp add: ease_in_out_cubic_def power3_eq_cube algebra_simps)
  next
    case 2
    have "s ^ 3 \<le> (1/2) ^ 3" using 2 by (intro cube) simp
    then have a: "4 * s * s * s \<le> 1/2" by (simp add: power3_eq_cube algebra_simps)
    have "(- 2 * t + 2) ^ 3 \<le> 1 ^ 3" using 2 by (intro cube) simp
    then have b: "1/2 \<le> 1 - (- 2 * t + 2) ^ 3 / 2" by simp
    show ?thesis using 2 a b by (simp add: ease_in_out_cubic_def)
  next
    case 3
    have "(- 2 * t + 2) ^ 3 \<le> (- 2 * s + 2) ^ 3" using st by (intro cube) simp
    then show ?thesis using 3 st by (simp add: ease_in_out_cubic_def)
  qed
qed

lemma ease_zero: "ease_in_out_cubic 0 = 0"
  by (simp add: ease_in_out_cubic_def)

lemma ease_one: "ease_in_out_cubic 1 = 1"
  by (simp add: ease_in_out_cubic_def)

lemma num_steps_bounds: "10 \<le> num_steps_of s e \<and> num_steps_of s e \<le> 100"
proof -
  let ?v = "max min_steps (min max_steps (distance_to s e / 10))"
  have "10 \<le> ?v" "?v \<le> 100" by (simp_all add: min_steps_def max_steps_def)
  then have "10 \<le> \<lfloor>?v\<rfloor>" "\<lfloor>?v\<rfloor> \<le> 100" by (simp_all add: le_floor_iff floor_le_iff)
  then show ?thesis unfolding num_steps_of_def by linarith
qed

lemma normal_path_loop_timestamps:
  "timestamps (fst (normal_path_loop mt s c1 c2 e n idxs path g)) =
     timestamps path @ map (\<lambda>i. mt * ease_in_out_cubic (real i / real n)) idxs"
  by (induction idxs arbitrary: path g)
     (simp_all add: Let_def split_def timestamps_def)

lemma generate_normal_path_timestamps:
  "timestamps (fst (generate_normal_path s e mt g)) = eased_times mt (num_steps_of s e)"
  by (simp add: generate_normal_path_def Let_def split_def normal_path_loop_timestamps
        eased_times_def del: upt_Suc) (simp add: timestamps_def)

lemma length_timestamps: "length (timestamps p) = length p"
  by (simp add: timestamps_def)

lemma length_eased_times: "length (eased_times mt n) = n + 1"
  by (simp add: eased_times_def)

lemma length_generate_normal_path:
  "length (fst (generate_normal_path s e mt g)) = num_steps_of s e + 1"
  using generate_normal_path_timestamps [of s e mt g] length_timestamps length_eased_times
  by metis

lemma sorted_eased_times: "0 \<le> mt \<Longrightarrow> sorted (eased_times mt n)"
proof -
  assume mt: "0 \<le> mt"
  have "sorted_wrt (\<lambda>i j. mt * ease_in_out_cubic (real i / real n)
                          \<le> mt * ease_in_out_cubic (real j / real n)) [0 ..< n + 1]"
  proof (rule sorted_wrt_mono_rel [where P = "(<)"])
    fix i j :: nat
    assume "i < j"
    then have "real i / real n \<le> real j / real n"
      by (simp add: divide_right_mono)
    then show "mt * ease_in_out_cubic (real i / real n)
                 \<le> mt * ease_in_out_cubic (real j / real n)"
      using mt by (intro mult_left_mono ease_mono)
  next
    show "sorted_wrt (<) [0 ..< n + 1]" by (simp add: sorted_wrt_upt del: upt_Suc)
  qed
  then show ?thesis by (simp add: eased_times_def sorted_map del: upt_Suc)
qed

lemma hd_eased_times: "hd (eased_times mt n) = 0"
  by (simp add: eased_times_def upt_conv_Cons ease_zero del: upt_Suc)

lemma last_eased_times: "0 < n \<Longrightarrow> last (eased_times mt n) = mt"
  by (simp add: eased_times_def ease_one)

lemma eased_times_nonneg: "0 \<le> mt \<Longrightarrow> t \<in> set (eased_times mt n) \<Longrightarrow> 0 \<le> t"
proof -
  assume mt: "0 \<le> mt" and t: "t \<in> set (eased_times mt n)"
  then obtain i where "t = mt * ease_in_out_cubic (real i / real n)"
    unfolding eased_times_def by (auto simp del: upt_Suc)
  moreover have "ease_in_out_cubic 0 \<le> ease_in_out_cubic (real i / real n)"
    by (rule ease_mono) simp
  ultimately show ?thesis using mt by (simp add: ease_zero)
qed

lemma eased_times_upper: "0 \<le> mt \<Longrightarrow> 0 < n \<Longrightarrow> t \<in> set (eased_times mt n) \<Longrightarrow> t \<le> mt"
proof -
  assume mt: "0 \<le> mt" and n: "0 < n" and t: "t \<in> set (eased_times mt n)"
  then obtain i where i: "i \<le> n" "t = mt * ease_in_out_cubic (real i / real n)"
    unfolding eased_times_def by (fastforce simp del: upt_Suc simp: less_Suc_eq_le)
  have "real i / real n \<le> 1" using i n by simp
  then have "ease_in_out_cubic (real i / real n) \<le> ease_in_out_cubic 1"
    by (rule ease_mono)
  then show ?thesis using mt i by (simp add: ease_one mult_left_le)
qed

section \<open>Properties of the time budget\<close>

lemma allocate_exhausted:
  "remaining_budget b \<le> 0 \<Longrightarrow> allocate b k c g = (replicate (nat c) 0, b, g)"
  by (simp add: allocate_def)

text \<open>
  What the loop of \<open>allocate\<close> does account for: it appends one delay per action, each
  within the bounds of the profile, subtracts their sum from the remaining budget and
  counts the actions.
\<close>

lemma allocate_loop_accounting:
  "allocate_loop k sc n ds b g = (ds', b', g') \<Longrightarrow>
     (\<exists>new. ds' = ds @ new \<and> length new = n
        \<and> list_all (\<lambda>d. min_value (PROFILES k) \<le> d \<and> d \<le> max_value (PROFILES k)) new
        \<and> remaining_budget b' = remaining_budget b - sum_list new
        \<and> actions_taken b' = actions_taken b + int n)"
proof (induction n arbitrary: ds b g)
  case 0
  then show ?case by simp
next
  case (Suc n)
  let ?d = "fst (generate_delay k sc 1 g)"
  let ?g = "snd (generate_delay k sc 1 g)"
  let ?b = "b\<lparr>remaining_budget := remaining_budget b - ?d,
              actions_taken := actions_taken b + 1\<rparr>"
  from Suc.prems have "allocate_loop k sc n (ds @ [?d]) ?b ?g = (ds', b', g')"
    by (simp add: split_def Let_def)
  from Suc.IH [OF this] obtain new where new: "ds' = (ds @ [?d]) @ new" "length new = n"
    "list_all (\<lambda>d. min_value (PROFILES k) \<le> d \<and> d \<le> max_value (PROFILES k)) new"
    "remaining_budget b' = remaining_budget ?b - sum_list new"
    "actions_taken b' = actions_taken ?b + int n"
    by blast
  have range: "min_value (PROFILES k) \<le> ?d \<and> ?d \<le> max_value (PROFILES k)"
    using profile_bounds_ordered [of k] by (simp add: generate_delay_value)
  show ?case
    using new range by (intro exI [of _ "?d # new"]) simp
qed

text \<open>
  Claim C1. On a fresh budget of 0.01 seconds, allocating one \<open>READING_SENTENCE\<close> delay returns, for
  every state of the random source, a single delay of at least one second (the profile's
  floor), which exceeds the remaining budget; the stored remaining budget drops to at
  most -0.99, and only \<open>get_remaining_time\<close> reports it as zero.
\<close>

theorem allocate_overruns_budget:
  "(let r = allocate (TimingBudget_init (1/100)) READING_SENTENCE 1 g
    in length (fst r) = 1 \<and> 1 \<le> sum_list (fst r)
       \<and> remaining_budget (fst (snd r)) \<le> - (99/100)
       \<and> get_remaining_time (fst (snd r)) = 0)"
  by (simp add: allocate_def TimingBudget_init_def Let_def generate_delay_def
        random_gauss_def get_remaining_time_def split_def max_def min_def)

section \<open>Properties of the velocity model\<close>

lemma unit_draws_advance: "unit_draws g \<Longrightarrow> unit_draws (snd (random_random g))"
  by (simp add: unit_draws_def random_random_def)

lemma uniforms_advance: "uniforms (snd (random_random g)) n = uniforms g (Suc n)"
  by (simp add: random_random_def)

lemma unit_draws_steady: "unit_draws steady_source"
  by (simp add: unit_draws_def steady_source_def)

lemma unit_draws_low: "unit_draws low_source"
  by (simp add: unit_draws_def low_source_def)

lemma log11_lower: "211 / 61 < log 2 11"
proof -
  have p: "(2::real) ^ 211 < 11 ^ 61" by simp
  have a: "log 2 ((2::real) ^ 211) = real 211 * log 2 2" by (rule log_nat_power) simp
  have b: "log 2 ((11::real) ^ 61) = real 61 * log 2 11" by (rule log_nat_power) simp
  have "log 2 ((2::real) ^ 211) < log 2 (11 ^ 61)"
    using p by (subst log_less_cancel_iff) simp_all
  then have "real 211 * log 2 2 < real 61 * log 2 11" unfolding a b .
  then show ?thesis by simp
qed

lemma log11_upper: "log 2 11 < 128 / 37"
proof -
  have p: "(11::real) ^ 37 < 2 ^ 128" by simp
  have a: "log 2 ((2::real) ^ 128) = real 128 * log 2 2" by (rule log_nat_power) simp
  have b: "log 2 ((11::real) ^ 37) = real 37 * log 2 11" by (rule log_nat_power) simp
  have "log 2 ((11::real) ^ 37) < log 2 (2 ^ 128)"
    using p by (subst log_less_cancel_iff) simp_all
  then have "real 37 * log 2 11 < real 128 * log 2 2" unfolding a b .
  then show ?thesis by simp
qed

lemma fitts_argument: "0 \<le> (d::real) \<Longrightarrow> 1 \<le> d / (if tw \<le> 0 then 1 else tw) + 1"
  by (cases "tw \<le> 0") (simp_all add: not_le)

lemma calculate_movement_time_value:
  assumes "0 \<le> d"
  shows "calculate_movement_time d tw g =
           Inr ((0 + 150 * log 2 (d / (if tw \<le> 0 then 1 else tw) + 1))
                  * (8/10 + (12/10 - 8/10) * uniforms g 0),
                snd (random_random g))"
proof -
  have "\<not> d / (if tw \<le> 0 then 1 else tw) + 1 \<le> 0"
    using fitts_argument [OF assms, of tw] by linarith
  then show ?thesis
    by (simp add: calculate_movement_time_def Let_def random_uniform_def
          A_CONSTANT_def B_CONSTANT_def)
qed

lemma base_nonneg: "0 \<le> (d::real) \<Longrightarrow> 0 \<le> 0 + 150 * log 2 (d / (if tw \<le> 0 then 1 else tw) + 1)"
proof -
  assume "0 \<le> d"
  then have "1 \<le> d / (if tw \<le> 0 then 1 else tw) + 1" by (rule fitts_argument)
  then have "0 \<le> log 2 (d / (if tw \<le> 0 then 1 else tw) + 1)"
    by (subst zero_le_log_cancel_iff) simp_all
  then show ?thesis by simp
qed

text \<open>
  Claim C5, as amended. For every distance that is not negative and every target width,
  \<open>calculate_movement_time\<close> returns \<open>(0 + 150 * log2 (distance / W + 1)) * u\<close>, where
  \<open>W\<close> is the target width when that is positive and 1 otherwise, and \<open>u\<close> is the
  value of \<open>uniform(0.8, 1.2)\<close> on the next draw of the random source, that is
  \<open>0.8 + (1.2 - 0.8) * r\<close> for the next result \<open>r\<close> of \<open>random()\<close>, which lies between 0.8
  and 1.2; the source is advanced by that one draw. For distance 500 and width 50 the base
  is \<open>150 * log2 11\<close>, which lies between 518.85 and 518.92, and the value returned lies
  within 0.8 and 1.2 times that base.
\<close>

theorem movement_time_fitts:
  assumes "0 \<le> distance" and "unit_draws g"
  shows "calculate_movement_time distance target_width g =
           Inr ((0 + 150 * log 2 (distance /
                    (if target_width \<le> 0 then 1 else target_width) + 1))
                  * (8/10 + (12/10 - 8/10) * uniforms g 0),
                snd (random_random g))
         \<and> 8/10 \<le> 8/10 + (12/10 - 8/10) * uniforms g 0
         \<and> 8/10 + (12/10 - 8/10) * uniforms g 0 < 12/10
         \<and> calculate_movement_time 500 50 g =
             Inr (150 * log 2 11 * (8/10 + (12/10 - 8/10) * uniforms g 0),
                  snd (random_random g))
         \<and> (8/10) * (150 * log 2 11)
               \<le> 150 * log 2 11 * (8/10 + (12/10 - 8/10) * uniforms g 0)
         \<and> 150 * log 2 11 * (8/10 + (12/10 - 8/10) * uniforms g 0)
               \<le> (12/10) * (150 * log 2 11)
         \<and> 51885/100 < 150 * log 2 11 \<and> 150 * log 2 11 < 51892/100"
proof -
  let ?u = "8/10 + (12/10 - 8/10) * uniforms g 0"
  have u: "8/10 \<le> ?u" "?u < 12/10"
    using assms(2) by (simp_all add: unit_draws_def)
  have general: "calculate_movement_time distance target_width g =
           Inr ((0 + 150 * log 2 (distance /
                    (if target_width \<le> 0 then 1 else target_width) + 1)) * ?u,
                snd (random_random g))"
    by (rule calculate_movement_time_value [OF assms(1)])
  have v: "calculate_movement_time 500 50 g = Inr (150 * log 2 11 * ?u, snd (random_random g))"
    using calculate_movement_time_value [of 500 50 g] by simp
  have pos: "0 \<le> 150 * log 2 11" using log11_lower by simp
  have w: "(8/10) * (150 * log 2 11) \<le> 150 * log 2 11 * ?u"
       "150 * log 2 11 * ?u \<le> (12/10) * (150 * log 2 11)"
    using u pos by (simp_all add: mult.commute mult_left_mono)
  have c: "51885/100 < 150 * log 2 11" "150 * log 2 11 < 51892/100"
    using log11_lower log11_upper by simp_all
  from general u v w c show ?thesis by (intro conjI)
qed

theorem movement_time_fitts_witness:
  "(0::real) \<le> 500 \<and> unit_draws low_source
   \<and> calculate_movement_time 500 50 low_source
       = Inr (150 * log 2 11 * (82/100), snd (random_random low_source))
   \<and> calculate_movement_time 500 50 steady_source
       = Inr (150 * log 2 11, snd (random_random steady_source))"
proof -
  have a: "calculate_movement_time 500 50 low_source
       = Inr (150 * log 2 11 * (82/100), snd (random_random low_source))"
    using movement_time_fitts [of 500 low_source 50] unit_draws_low
    by (simp add: low_source_def)
  have b: "calculate_movement_time 500 50 steady_source
       = Inr (150 * log 2 11, snd (random_random steady_source))"
    using movement_time_fitts [of 500 steady_source 50] unit_draws_steady
    by (simp add: steady_source_def)
  from a b unit_draws_low show ?thesis by simp
qed

text \<open>
  The claim as stated fails: a width of 1/2 is not raised to 1, so for distance 1 the code
  returns \<open>150 * log2 3\<close> at \<open>u = 1\<close>, above 1.2 times the base \<open>150 * log2 2\<close> that a
  width floored at 1 would give; and \<open>150 * log2 11\<close> exceeds 518.6 by more than 0.25.
\<close>

theorem movement_time_floor_counterexample:
  "calculate_movement_time 1 (1/2) steady_source
     = Inr (150 * log 2 3, snd (random_random steady_source))
   \<and> (12/10) * (0 + 150 * log 2 (1 / max 1 (1/2) + 1)) < 150 * log 2 3
   \<and> 5186/10 + 25/100 < 150 * log 2 11"
proof -
  have v: "calculate_movement_time 1 (1/2) steady_source
     = Inr (150 * log 2 3, snd (random_random steady_source))"
    by (simp add: calculate_movement_time_def Let_def random_uniform_def
        A_CONSTANT_def B_CONSTANT_def steady_source_def)
  have p: "(2::real) ^ 6 < 3 ^ 5" by simp
  have a: "log 2 ((2::real) ^ 6) = real 6 * log 2 2" by (rule log_nat_power) simp
  have b: "log 2 ((3::real) ^ 5) = real 5 * log 2 3" by (rule log_nat_power) simp
  have "log 2 ((2::real) ^ 6) < log 2 (3 ^ 5)"
    using p by (subst log_less_cancel_iff) simp_all
  then have "real 6 * log 2 2 < real 5 * log 2 3" unfolding a b .
  then have w: "(12/10) * (0 + 150 * log 2 (1 / max 1 (1/2) + 1)) < 150 * log 2 3"
    by simp
  have "5186/10 + 25/100 < 150 * log 2 11" using log11_lower by simp
  with v w show ?thesis by blast
qed

section \<open>Properties of the path planner\<close>

lemma distance_to_nonneg: "0 \<le> distance_to p q"
  by (simp add: distance_to_def)

lemma movement_time_nonneg:
  assumes "0 \<le> d" and "0 \<le> uniforms g 0"
  shows "\<exists>mt. calculate_movement_time d tw g = Inr (mt, snd (random_random g)) \<and> 0 \<le> mt"
proof -
  have "0 \<le> (0 + 150 * log 2 (d / (if tw \<le> 0 then 1 else tw) + 1))
               * (8/10 + (12/10 - 8/10) * uniforms g 0)"
    using base_nonneg [OF assms(1), of tw] assms(2) by (intro mult_nonneg_nonneg) simp_all
  then show ?thesis
    using calculate_movement_time_value [OF assms(1), of tw g] by blast
qed

lemma timestamps_append: "timestamps (p @ q) = timestamps p @ timestamps q"
  by (simp add: timestamps_def)

lemma timestamps_tl: "timestamps (tl p) = tl (timestamps p)"
  by (simp add: timestamps_def map_tl)

lemma timestamps_shift:
  "timestamps (map (\<lambda>(sx, sy, t). (sx, sy, t + c)) p) = map (\<lambda>t. t + c) (timestamps p)"
  by (simp add: timestamps_def split_def)

lemma timestamps_Nil_iff: "timestamps p = [] \<longleftrightarrow> p = []"
  by (simp add: timestamps_def)

lemma last_timestamps: "p \<noteq> [] \<Longrightarrow> snd (snd (last p)) = last (timestamps p)"
  by (simp add: timestamps_def last_map split_def)

lemma generate_normal_path_nonempty: "fst (generate_normal_path s e mt g) \<noteq> []"
  using length_generate_normal_path [of s e mt g] by auto

lemma last_generate_normal_path:
  "snd (snd (last (fst (generate_normal_path s e mt g)))) = mt"
proof -
  have "0 < num_steps_of s e" using num_steps_bounds [of s e] by linarith
  then show ?thesis
    using last_timestamps [OF generate_normal_path_nonempty, of s e mt g]
    by (simp add: generate_normal_path_timestamps last_eased_times)
qed

text \<open>The overshoot path, with its parts named.\<close>

lemma generate_overshoot_path_parts:
  fixes s e :: Point and mt :: real and g :: RandomSource
  defines "ratio \<equiv> 105/100 + (115/100 - 105/100) * uniforms g 0"
  defines "op \<equiv> \<lparr>px = px s + (px e - px s) * ratio, py = py s + (py e - py s) * ratio\<rparr>"
  defines "r1 \<equiv> generate_normal_path s op (mt * (7/10)) (snd (random_random g))"
  defines "r2 \<equiv> generate_normal_path op e (mt * (3/10)) (snd r1)"
  shows "generate_overshoot_path s e mt g =
           Inr (fst r1 @ tl (map (\<lambda>(sx, sy, t). (sx, sy, t + mt * (7/10))) (fst r2)), snd r2)"
proof -
  have ne: "fst r1 \<noteq> []" unfolding r1_def by (rule generate_normal_path_nonempty)
  have lt: "snd (snd (last (fst r1))) = mt * (7/10)"
    unfolding r1_def by (rule last_generate_normal_path)
  have "generate_overshoot_path s e mt g =
          (if fst r1 = [] then Inl IndexError
           else Inr (fst r1 @ tl (map (\<lambda>(sx, sy, t). (sx, sy, t + snd (snd (last (fst r1)))))
                                   (fst r2)), snd r2))"
    by (simp add: generate_overshoot_path_def Let_def split_def random_uniform_def
          r1_def r2_def op_def ratio_def)
  then show ?thesis by (simp only: lt ne if_False)
qed

lemma sorted_tl_shift:
  assumes "sorted xs" 
  shows "sorted (map (\<lambda>t. t + (c::real)) (tl xs))"
proof -
  have "sorted (tl xs)" using assms by (cases xs) simp_all
  then show ?thesis by (simp add: sorted_map sorted_wrt_iff_nth_less sorted_iff_nth_mono)
qed

lemma overshoot_timestamps_sorted:
  assumes "0 \<le> mt" and "0 < n1"
  shows "sorted (eased_times (mt * (7/10)) n1
                  @ map (\<lambda>t. t + mt * (7/10)) (tl (eased_times (mt * (3/10)) n2)))"
proof -
  have m1: "0 \<le> mt * (7/10)" and m2: "0 \<le> mt * (3/10)" using assms(1) by simp_all
  have s1: "sorted (eased_times (mt * (7/10)) n1)" using m1 by (rule sorted_eased_times)
  have s2: "sorted (map (\<lambda>t. t + mt * (7/10)) (tl (eased_times (mt * (3/10)) n2)))"
    using sorted_eased_times [OF m2] by (rule sorted_tl_shift)
  have cross: "a \<le> b"
    if a: "a \<in> set (eased_times (mt * (7/10)) n1)"
    and b: "b \<in> set (map (\<lambda>t. t + mt * (7/10)) (tl (eased_times (mt * (3/10)) n2)))"
    for a b
  proof -
    have "a \<le> mt * (7/10)" using eased_times_upper [OF m1 assms(2) a] .
    moreover obtain t where t: "t \<in> set (tl (eased_times (mt * (3/10)) n2))"
      and bt: "b = t + mt * (7/10)" using b by auto
    moreover have "t \<in> set (eased_times (mt * (3/10)) n2)"
      using t by (cases "eased_times (mt * (3/10)) n2") simp_all
    then have "0 \<le> t" using eased_times_nonneg [OF m2] by blast
    ultimately show ?thesis by linarith
  qed
  show ?thesis using s1 s2 cross by (simp add: sorted_append del: upt_Suc)
qed

lemma generate_path_branches:
  fixes start endp :: "real \<times> real"
  defines "S \<equiv> \<lparr>px = fst start, py = snd start\<rparr>"
  defines "E \<equiv> \<lparr>px = fst endp, py = snd endp\<rparr>"
  assumes mt: "calculate_movement_time (distance_to S E)
                 (case target_size of None \<Rightarrow> max 10 (distance_to S E * (5/100)) | Some w \<Rightarrow> w) g
               = Inr (mt, g1)"
  shows "generate_path start endp target_size g =
           (if uniforms g1 0 < 10/100
            then generate_overshoot_path S E mt (snd (random_random g1))
            else Inr (generate_normal_path S E mt (snd (random_random g1))))"
  using mt unfolding S_def E_def
  by (simp add: generate_path_def Let_def random_random_def
        overshoot_probability_def split_def)

text \<open>
  Claim C4. For every start and end point, every target size and every state of the random
  source whose uniform draws lie in the unit interval, \<open>generate_path\<close> returns a path
  that is not empty, whose first sample has time stamp 0 and whose time stamps never
  decrease from one sample to the next, through the junction of an overshoot path too.
\<close>

theorem generate_path_timestamps_monotone:
  assumes "unit_draws g"
  shows "\<exists>path g'. generate_path start endp target_size g = Inr (path, g')
           \<and> path \<noteq> [] \<and> hd (timestamps path) = 0 \<and> sorted (timestamps path)"
proof -
  let ?S = "\<lparr>px = fst start, py = snd start\<rparr>"
  let ?E = "\<lparr>px = fst endp, py = snd endp\<rparr>"
  let ?w = "case target_size of None \<Rightarrow> max 10 (distance_to ?S ?E * (5/100)) | Some w \<Rightarrow> w"
  let ?g1 = "snd (random_random g)"
  let ?g2 = "snd (random_random ?g1)"
  have "0 \<le> uniforms g 0" using assms by (simp add: unit_draws_def)
  then obtain mt where mt: "calculate_movement_time (distance_to ?S ?E) ?w g = Inr (mt, ?g1)"
    and pos: "0 \<le> mt"
    using movement_time_nonneg [OF distance_to_nonneg, of g ?S ?E ?w] by blast
  note br = generate_path_branches [OF mt]
  show ?thesis
  proof (cases "uniforms ?g1 0 < 10/100")
    case False
    let ?r = "generate_normal_path ?S ?E mt ?g2"
    have eq: "generate_path start endp target_size g = Inr (fst ?r, snd ?r)"
      using br False by simp
    have ts: "timestamps (fst ?r) = eased_times mt (num_steps_of ?S ?E)"
      by (rule generate_normal_path_timestamps)
    have "fst ?r \<noteq> []" by (rule generate_normal_path_nonempty)
    moreover have "hd (timestamps (fst ?r)) = 0" by (simp only: ts hd_eased_times)
    moreover have "sorted (timestamps (fst ?r))" using pos by (simp only: ts sorted_eased_times)
    ultimately show ?thesis using eq by blast
  next
    case True
    let ?ratio = "105/100 + (115/100 - 105/100) * uniforms ?g2 0"
    let ?op = "\<lparr>px = px ?S + (px ?E - px ?S) * ?ratio, py = py ?S + (py ?E - py ?S) * ?ratio\<rparr>"
    let ?r1 = "generate_normal_path ?S ?op (mt * (7/10)) (snd (random_random ?g2))"
    let ?r2 = "generate_normal_path ?op ?E (mt * (3/10)) (snd ?r1)"
    let ?path = "fst ?r1 @ tl (map (\<lambda>(sx, sy, t). (sx, sy, t + mt * (7/10))) (fst ?r2))"
    have eq: "generate_path start endp target_size g = Inr (?path, snd ?r2)"
      using br True generate_overshoot_path_parts [of ?S ?E mt ?g2] by simp
    have ne1: "fst ?r1 \<noteq> []" by (rule generate_normal_path_nonempty)
    have ts: "timestamps ?path =
                eased_times (mt * (7/10)) (num_steps_of ?S ?op)
                @ map (\<lambda>t. t + mt * (7/10)) (tl (eased_times (mt * (3/10)) (num_steps_of ?op ?E)))"
      by (simp only: timestamps_append timestamps_tl timestamps_shift
            generate_normal_path_timestamps map_tl)
    have n1: "0 < num_steps_of ?S ?op" using num_steps_bounds [of ?S ?op] by linarith
    have ne: "?path \<noteq> []" using ne1 by simp
    let ?A = "eased_times (mt * (7/10)) (num_steps_of ?S ?op)"
    let ?B = "map (\<lambda>t. t + mt * (7/10)) (tl (eased_times (mt * (3/10)) (num_steps_of ?op ?E)))"
    have "?A \<noteq> []"
      using length_eased_times [of "mt * (7/10)" "num_steps_of ?S ?op"] by auto
    then have "hd (?A @ ?B) = hd ?A" by (rule hd_append2)
    then have h: "hd (timestamps ?path) = 0"
      by (simp only: ts hd_eased_times)
    have so: "sorted (timestamps ?path)"
      using overshoot_timestamps_sorted [OF pos n1] by (simp only: ts)
    show ?thesis using eq ne h so by blast
  qed
qed

theorem generate_path_timestamps_monotone_witness:
  "unit_draws low_source
   \<and> (\<exists>path g'. generate_path (0, 0) (300, 400) None low_source = Inr (path, g')
           \<and> path \<noteq> [] \<and> hd (timestamps path) = 0 \<and> sorted (timestamps path))"
  using generate_path_timestamps_monotone [of low_source "(0, 0)" "(300, 400)" None]
    unit_draws_low
  by simp

lemma unit_ratio:
  "unit_draws g \<Longrightarrow> 105/100 \<le> 105/100 + (115/100 - 105/100) * uniforms g n
     \<and> 105/100 + (115/100 - 105/100) * uniforms g n < 115/100"
  by (simp add: unit_draws_def)

lemma last_append_shift_tl:
  "tl ys \<noteq> [] \<Longrightarrow> last (xs @ map (\<lambda>t. t + (c::real)) (tl ys)) = last ys + c"
  by (simp add: last_map last_tl)

text \<open>
  Claim C6. After the movement time \<open>mt\<close> has been computed, the planner draws one uniform
  number (the second uniform draw of the call) and overshoots exactly when it is below
  0.10. The overshoot point is the start plus the start-to-end vector scaled by a ratio
  \<open>uniform(1.05, 1.15)\<close>; the first sub-path runs from the start to that point over
  \<open>0.7 * mt\<close>, the second from that point to the end over \<open>0.3 * mt\<close>; the second is
  shifted by the last time stamp of the first, which is \<open>0.7 * mt\<close>, and loses its first
  sample, so the joined path has one sample less than the two together and ends at
  \<open>0.7 * mt + 0.3 * mt\<close>. Otherwise the result is the single direct path over \<open>mt\<close>.
\<close>

theorem generate_path_overshoot_structure:
  assumes "unit_draws g"
  shows
   "let S = \<lparr>px = fst start, py = snd start\<rparr>;
        E = \<lparr>px = fst endp, py = snd endp\<rparr>;
        w = (case target_size of None \<Rightarrow> max 10 (distance_to S E * (5/100)) | Some w \<Rightarrow> w);
        g1 = snd (random_random g);
        g2 = snd (random_random g1);
        g3 = snd (random_random g2)
    in \<exists>mt. 0 \<le> mt \<and> calculate_movement_time (distance_to S E) w g = Inr (mt, g1) \<and>
         (if uniforms g 1 < 10/100
          then
            (let ratio = 105/100 + (115/100 - 105/100) * uniforms g 2;
                 overshoot_point = \<lparr>px = px S + (px E - px S) * ratio,
                                    py = py S + (py E - py S) * ratio\<rparr>;
                 r1 = generate_normal_path S overshoot_point (mt * (7/10)) g3;
                 r2 = generate_normal_path overshoot_point E (mt * (3/10)) (snd r1);
                 path1 = fst r1;
                 path2 = fst r2;
                 joined = path1 @ tl (map (\<lambda>(sx, sy, t). (sx, sy, t + last (timestamps path1))) path2)
             in generate_path start endp target_size g = Inr (joined, snd r2)
                \<and> 105/100 \<le> ratio \<and> ratio < 115/100
                \<and> timestamps path1 = eased_times (mt * (7/10)) (num_steps_of S overshoot_point)
                \<and> timestamps path2 = eased_times (mt * (3/10)) (num_steps_of overshoot_point E)
                \<and> last (timestamps path1) = mt * (7/10)
                \<and> length joined + 1 = length path1 + length path2
                \<and> last (timestamps joined) = mt * (7/10) + mt * (3/10))
          else generate_path start endp target_size g = Inr (generate_normal_path S E mt g2))"
proof -
  let ?S = "\<lparr>px = fst start, py = snd start\<rparr>"
  let ?E = "\<lparr>px = fst endp, py = snd endp\<rparr>"
  let ?w = "case target_size of None \<Rightarrow> max 10 (distance_to ?S ?E * (5/100)) | Some w \<Rightarrow> w"
  let ?g1 = "snd (random_random g)"
  let ?g2 = "snd (random_random ?g1)"
  let ?g3 = "snd (random_random ?g2)"
  have u1: "uniforms ?g1 0 = uniforms g 1" by (simp add: uniforms_advance)
  have u2: "uniforms ?g2 0 = uniforms g 2"
    by (simp add: uniforms_advance numeral_2_eq_2)
  have "0 \<le> uniforms g 0" using assms by (simp add: unit_draws_def)
  then obtain mt where mt: "calculate_movement_time (distance_to ?S ?E) ?w g = Inr (mt, ?g1)"
    and pos: "0 \<le> mt"
    using movement_time_nonneg [OF distance_to_nonneg, of g ?S ?E ?w] by blast
  note br = generate_path_branches [OF mt, unfolded u1]
  let ?ratio = "105/100 + (115/100 - 105/100) * uniforms g 2"
  let ?op = "\<lparr>px = px ?S + (px ?E - px ?S) * ?ratio, py = py ?S + (py ?E - py ?S) * ?ratio\<rparr>"
  let ?r1 = "generate_normal_path ?S ?op (mt * (7/10)) ?g3"
  let ?r2 = "generate_normal_path ?op ?E (mt * (3/10)) (snd ?r1)"
  let ?sh = "\<lambda>c. map (\<lambda>(sx, sy, t). (sx, sy, t + (c::real))) (fst ?r2)"
  let ?joined = "fst ?r1 @ tl (?sh (last (timestamps (fst ?r1))))"
  have ne1: "fst ?r1 \<noteq> []" by (rule generate_normal_path_nonempty)
  have n1: "0 < num_steps_of ?S ?op" using num_steps_bounds [of ?S ?op] by linarith
  have n2: "0 < num_steps_of ?op ?E" using num_steps_bounds [of ?op ?E] by linarith
  have t1: "timestamps (fst ?r1) = eased_times (mt * (7/10)) (num_steps_of ?S ?op)"
    by (rule generate_normal_path_timestamps)
  have t2: "timestamps (fst ?r2) = eased_times (mt * (3/10)) (num_steps_of ?op ?E)"
    by (rule generate_normal_path_timestamps)
  have l1: "last (timestamps (fst ?r1)) = mt * (7/10)"
    using n1 by (simp only: t1 last_eased_times)
  have over: "generate_overshoot_path ?S ?E mt ?g2 = Inr (?joined, snd ?r2)"
    using generate_overshoot_path_parts [of ?S ?E mt ?g2] by (simp only: l1 u2)
  have len2: "length (fst ?r2) = num_steps_of ?op ?E + 1"
    by (rule length_generate_normal_path)
  have len: "length ?joined + 1 = length (fst ?r1) + length (fst ?r2)"
    using len2 by simp
  have tl_ne: "tl (eased_times (mt * (3/10)) (num_steps_of ?op ?E)) \<noteq> []"
    using n2 length_eased_times [of "mt * (3/10)" "num_steps_of ?op ?E"]
    by (cases "eased_times (mt * (3/10)) (num_steps_of ?op ?E)") auto
  have tsj: "timestamps ?joined = eased_times (mt * (7/10)) (num_steps_of ?S ?op)
               @ map (\<lambda>t. t + mt * (7/10)) (tl (eased_times (mt * (3/10)) (num_steps_of ?op ?E)))"
    by (simp only: timestamps_append timestamps_tl timestamps_shift t1 t2
          last_eased_times [OF n1] map_tl)
  have "last (timestamps ?joined)
          = last (eased_times (mt * (3/10)) (num_steps_of ?op ?E)) + mt * (7/10)"
    unfolding tsj using tl_ne by (rule last_append_shift_tl)
  then have lastj: "last (timestamps ?joined) = mt * (7/10) + mt * (3/10)"
    using n2 by (simp add: last_eased_times)
  show ?thesis
  proof (cases "uniforms g 1 < 10/100")
    case True
    then have "generate_path start endp target_size g = Inr (?joined, snd ?r2)"
      using br over by simp
    then show ?thesis
      using True pos mt unit_ratio [OF assms, of 2] t1 t2 l1 len lastj
      unfolding Let_def by (intro exI [of _ mt]) simp
  next
    case False
    then have "generate_path start endp target_size g = Inr (generate_normal_path ?S ?E mt ?g2)"
      using br by simp
    then show ?thesis
      using False pos mt unfolding Let_def by (intro exI [of _ mt]) simp
  qed
qed

theorem generate_path_overshoot_structure_witness:
  "unit_draws low_source \<and> uniforms low_source 1 < 10/100
   \<and> (\<exists>mt path g'. 0 \<le> mt
          \<and> generate_path (0, 0) (300, 400) None low_source = Inr (path, g')
          \<and> last (timestamps path) = mt * (7/10) + mt * (3/10))
   \<and> unit_draws steady_source \<and> \<not> uniforms steady_source 1 < 10/100
   \<and> (\<exists>mt r. 0 \<le> mt \<and> generate_path (0, 0) (300, 400) None steady_source = Inr r
          \<and> timestamps (fst r) = eased_times mt 50)"
proof -
  have a: "uniforms low_source 1 < 10/100" by (simp add: low_source_def)
  have b: "\<not> uniforms steady_source 1 < 10/100" by (simp add: steady_source_def)
  note over = generate_path_overshoot_structure
    [OF unit_draws_low, of "(0, 0)" "(300, 400)" None, unfolded Let_def if_P [OF a]]
  note direct = generate_path_overshoot_structure
    [OF unit_draws_steady, of "(0, 0)" "(300, 400)" None, unfolded Let_def if_not_P [OF b]]
  have c: "\<exists>mt path g'. 0 \<le> mt
          \<and> generate_path (0, 0) (300, 400) None low_source = Inr (path, g')
          \<and> last (timestamps path) = mt * (7/10) + mt * (3/10)"
    using over by (elim exE conjE) (intro exI conjI, assumption+)
  have "sqrt ((300::real)\<^sup>2 + 400\<^sup>2) = 500"
    by (rule real_sqrt_unique) simp_all
  then have n: "num_steps_of \<lparr>px = fst (0::real, 0::real), py = snd (0::real, 0::real)\<rparr>
                  \<lparr>px = fst (300::real, 400::real), py = snd (300::real, 400::real)\<rparr> = 50"
    by (simp add: num_steps_of_def distance_to_def min_steps_def max_steps_def)
  from direct obtain mt where pos: "0 \<le> mt"
    and gp: "generate_path (0, 0) (300, 400) None steady_source =
          Inr (generate_normal_path \<lparr>px = fst (0::real, 0::real), py = snd (0::real, 0::real)\<rparr>
                 \<lparr>px = fst (300::real, 400::real), py = snd (300::real, 400::real)\<rparr> mt
                 (snd (random_random (snd (random_random steady_source)))))"
    by blast
  have "timestamps (fst (generate_normal_path \<lparr>px = fst (0::real, 0::real), py = snd (0::real, 0::real)\<rparr>
                 \<lparr>px = fst (300::real, 400::real), py = snd (300::real, 400::real)\<rparr> mt
                 (snd (random_random (snd (random_random steady_source)))))) = eased_times mt 50"
    by (simp only: generate_normal_path_timestamps n)
  with pos gp have d: "\<exists>mt r. 0 \<le> mt
          \<and> generate_path (0, 0) (300, 400) None steady_source = Inr r
          \<and> timestamps (fst r) = eased_times mt 50"
    by (intro exI conjI)
  show ?thesis using a b c d unit_draws_low unit_draws_steady by (intro conjI)
qed

section \<open>Properties of the element safety checks\<close>

lemma starts_with_iff: "starts_with p s \<longleftrightarrow> (\<exists>b. s = p @ b)"
  by (induction p s rule: starts_with.induct) auto

lemma contains_iff: "contains p s \<longleftrightarrow> (\<exists>a b. s = a @ p @ b)"
proof (induction s)
  case Nil
  show ?case by (cases p) simp_all
next
  case (Cons c cs)
  show ?case
  proof
    assume "contains p (c # cs)"
    then consider "starts_with p (c # cs)" | "contains p cs" by auto
    then show "\<exists>a b. c # cs = a @ p @ b"
    proof cases
      case 1
      then obtain b where "c # cs = p @ b" using starts_with_iff by blast
      then have "c # cs = [] @ p @ b" by simp
      then show ?thesis by blast
    next
      case 2
      then obtain a b where "cs = a @ p @ b" using Cons.IH by blast
      then have "c # cs = (c # a) @ p @ b" by simp
      then show ?thesis by blast
    qed
  next
    assume "\<exists>a b. c # cs = a @ p @ b"
    then obtain a b where ab: "c # cs = a @ p @ b" by blast
    show "contains p (c # cs)"
    proof (cases a)
      case Nil
      then have "starts_with p (c # cs)" using ab starts_with_iff by auto
      then show ?thesis by simp
    next
      case (Cons a0 as)
      then have "cs = as @ p @ b" using ab by simp
      then have "contains p cs" using Cons.IH by blast
      then show ?thesis by simp
    qed
  qed
qed

lemma matches_trap_iff:
  "matches_trap s \<longleftrightarrow>
     (\<exists>w a b. w \<in> set trap_lexicon \<and> map to_lower s = a @ w @ b)"
  by (auto simp: matches_trap_def list_ex_iff contains_iff)

lemma fold_case_eq_iff:
  fixes U L :: "'a list"
  assumes "distinct U" and "length U = length L" and "d \<notin> set U"
  shows "(case map_of (zip U L) c of Some l \<Rightarrow> l | None \<Rightarrow> c) = d
           \<longleftrightarrow> (c = d \<or> (c, d) \<in> set (zip U L))"
proof (cases "map_of (zip U L) c")
  case None
  then have "c \<notin> fst ` set (zip U L)" by (simp add: map_of_eq_None_iff)
  then have "(c, d) \<notin> set (zip U L)" by force
  then show ?thesis using None by auto
next
  case (Some l)
  then have in_zip: "(c, l) \<in> set (zip U L)" by (rule map_of_SomeD)
  then have "c \<in> set U" by (rule set_zip_leftD)
  then have ne: "c \<noteq> d" using assms(3) by blast
  have dist: "distinct (map fst (zip U L))" using assms(1, 2) by simp
  have "(c, d) \<in> set (zip U L) \<longleftrightarrow> d = l"
  proof
    assume "(c, d) \<in> set (zip U L)"
    then have "map_of (zip U L) c = Some d" using dist by (simp add: map_of_is_SomeI)
    then show "d = l" using Some by simp
  next
    assume "d = l" then show "(c, d) \<in> set (zip U L)" using in_zip by simp
  qed
  then show ?thesis using ne Some by auto
qed

lemma to_lower_eq_iff:
  assumes "d \<notin> set ''ABCDEFGHIJKLMNOPQRSTUVWXYZ''"
  shows "to_lower c = d \<longleftrightarrow>
           (c = d \<or> (c, d) \<in> set (zip ''ABCDEFGHIJKLMNOPQRSTUVWXYZ''
                                        ''abcdefghijklmnopqrstuvwxyz''))"
  unfolding to_lower_def
proof (rule fold_case_eq_iff)
  show "distinct ''ABCDEFGHIJKLMNOPQRSTUVWXYZ''" by simp
  show "length ''ABCDEFGHIJKLMNOPQRSTUVWXYZ'' = length ''abcdefghijklmnopqrstuvwxyz''" by simp
  show "d \<notin> set ''ABCDEFGHIJKLMNOPQRSTUVWXYZ''" by (rule assms)
qed

lemma lexicon_small_letters:
  "w \<in> set trap_lexicon \<Longrightarrow> d \<in> set w \<Longrightarrow> d \<notin> set ''ABCDEFGHIJKLMNOPQRSTUVWXYZ''"
  by (auto simp: trap_lexicon_def)

lemma map_to_lower_eq_word:
  assumes "w \<in> set trap_lexicon"
  shows "map to_lower m = w \<longleftrightarrow>
           list_all2 (\<lambda>c d. c = d \<or> (c, d) \<in> set (zip ''ABCDEFGHIJKLMNOPQRSTUVWXYZ''
                                                      ''abcdefghijklmnopqrstuvwxyz'')) m w"
proof -
  have "map to_lower m = w \<longleftrightarrow> list_all2 (\<lambda>c d. to_lower c = d) m w"
    by (simp add: list_all2_conv_all_nth list_eq_iff_nth_eq)
  also have "\<dots> \<longleftrightarrow> list_all2 (\<lambda>c d. c = d \<or> (c, d) \<in> set (zip ''ABCDEFGHIJKLMNOPQRSTUVWXYZ''
                                                      ''abcdefghijklmnopqrstuvwxyz'')) m w"
  proof
    assume "list_all2 (\<lambda>c d. to_lower c = d) m w"
    then show "list_all2 (\<lambda>c d. c = d \<or> (c, d) \<in> set (zip ''ABCDEFGHIJKLMNOPQRSTUVWXYZ''
                                                      ''abcdefghijklmnopqrstuvwxyz'')) m w"
      by (rule list.rel_mono_strong)
         (simp only: to_lower_eq_iff [OF lexicon_small_letters [OF assms]])
  next
    assume "list_all2 (\<lambda>c d. c = d \<or> (c, d) \<in> set (zip ''ABCDEFGHIJKLMNOPQRSTUVWXYZ''
                                                      ''abcdefghijklmnopqrstuvwxyz'')) m w"
    then show "list_all2 (\<lambda>c d. to_lower c = d) m w"
      by (rule list.rel_mono_strong)
         (simp only: to_lower_eq_iff [OF lexicon_small_letters [OF assms]])
  qed
  finally show ?thesis .
qed

lemma map_eq_infix_iff:
  "(\<exists>a b. map f s = a @ w @ b) \<longleftrightarrow> (\<exists>a m b. s = a @ m @ b \<and> map f m = w)"
proof
  assume "\<exists>a b. map f s = a @ w @ b"
  then obtain a b where e: "map f s = a @ (w @ b)" by blast
  from e [unfolded map_eq_append_conv] obtain a' r where
    r: "s = a' @ r" "a = map f a'" "w @ b = map f r" by blast
  from r(3) [unfolded append_eq_map_conv] obtain m b' where
    m: "r = m @ b'" "w = map f m" "b = map f b'" by blast
  from r(1) m(1) m(2) show "\<exists>a m b. s = a @ m @ b \<and> map f m = w" by blast
next
  assume "\<exists>a m b. s = a @ m @ b \<and> map f m = w"
  then obtain a m b where "s = a @ m @ b" "map f m = w" by blast
  then have "map f s = map f a @ w @ map f b" by simp
  then show "\<exists>a b. map f s = a @ w @ b" by blast
qed

lemma matches_trap_letters:
  "matches_trap s \<longleftrightarrow>
     (\<exists>a m b w. s = a @ m @ b
        \<and> w \<in> set [''hidden'', ''trap'', ''honeypot'', ''bot-trap'']
        \<and> list_all2 (\<lambda>c d. c = d \<or> (c, d) \<in> set (zip ''ABCDEFGHIJKLMNOPQRSTUVWXYZ''
                                                       ''abcdefghijklmnopqrstuvwxyz'')) m w)"
proof -
  have "matches_trap s \<longleftrightarrow> (\<exists>w. w \<in> set trap_lexicon \<and> (\<exists>a b. map to_lower s = a @ w @ b))"
    using matches_trap_iff [of s] by blast
  also have "\<dots> \<longleftrightarrow> (\<exists>w. w \<in> set trap_lexicon
                        \<and> (\<exists>a m b. s = a @ m @ b \<and> map to_lower m = w))"
    by (simp only: map_eq_infix_iff)
  also have "\<dots> \<longleftrightarrow> (\<exists>a m b w. s = a @ m @ b \<and> w \<in> set trap_lexicon
        \<and> list_all2 (\<lambda>c d. c = d \<or> (c, d) \<in> set (zip ''ABCDEFGHIJKLMNOPQRSTUVWXYZ''
                                                       ''abcdefghijklmnopqrstuvwxyz'')) m w)"
    using map_to_lower_eq_word by blast
  finally show ?thesis by (simp only: trap_lexicon_def)
qed

text \<open>
  Claim C7, as amended. The honeypot flag of \<open>JS_HONEYPOT_DETECTION\<close> is true exactly when
  one of these holds: display none; visibility hidden; the opacity parses to exactly 0;
  rectangle left or top below -100 or right beyond the window width plus 100; the z-index
  parses to a negative integer; a zero width or height; width and height both below 2; the
  class or the id string has a substring that is one of the words hidden, trap, honeypot,
  bot-trap with any of its letters possibly capital; or fixed position with the integer
  parsed from the style's left or top below -50. An element with display none, a zero
  rectangle and z-index 0 is flagged, is reported not safe and not visible.
\<close>

theorem honeypot_detection_indicators:
  "(let trap_word_in = (\<lambda>s. \<exists>a m b word. s = a @ m @ b
            \<and> word \<in> set [''hidden'', ''trap'', ''honeypot'', ''bot-trap'']
            \<and> list_all2 (\<lambda>c d. c = d \<or> (c, d) \<in> set (zip ''ABCDEFGHIJKLMNOPQRSTUVWXYZ''
                                                           ''abcdefghijklmnopqrstuvwxyz'')) m word)
    in isHoneypot (JS_HONEYPOT_DETECTION win el) =
     (display el = ''none'' \<or> visibility el = ''hidden'' \<or> opacity el = Some 0
      \<or> rect_left el < - 100 \<or> rect_top el < - 100 \<or> rect_right el > innerWidth win + 100
      \<or> (case zIndex el of None \<Rightarrow> False | Some z \<Rightarrow> z < 0)
      \<or> rect_width el = 0 \<or> rect_height el = 0
      \<or> (rect_width el < 2 \<and> rect_height el < 2)
      \<or> trap_word_in (className el) \<or> trap_word_in (element_id el)
      \<or> (position el = ''fixed'' \<and>
           ((case style_left el of None \<Rightarrow> False | Some l \<Rightarrow> l < - 50)
            \<or> (case style_top el of None \<Rightarrow> False | Some t \<Rightarrow> t < - 50)))))
   \<and> (let el0 = el\<lparr>display := ''none'', zIndex := Some 0, rect_left := 0, rect_top := 0,
                     rect_right := 0, rect_bottom := 0, rect_width := 0, rect_height := 0\<rparr>
      in isHoneypot (JS_HONEYPOT_DETECTION win el0)
         \<and> fst (is_element_safe (static_page el0) selector) = False
         \<and> fst (is_element_visible (static_page el0) selector) = False)"
proof -
  have general: "isHoneypot (JS_HONEYPOT_DETECTION win el) =
     (display el = ''none'' \<or> visibility el = ''hidden'' \<or> opacity el = Some 0
      \<or> rect_left el < - 100 \<or> rect_top el < - 100 \<or> rect_right el > innerWidth win + 100
      \<or> (case zIndex el of None \<Rightarrow> False | Some z \<Rightarrow> z < 0)
      \<or> rect_width el = 0 \<or> rect_height el = 0
      \<or> (rect_width el < 2 \<and> rect_height el < 2)
      \<or> matches_trap (className el) \<or> matches_trap (element_id el)
      \<or> (position el = ''fixed'' \<and>
           ((case style_left el of None \<Rightarrow> False | Some l \<Rightarrow> l < - 50)
            \<or> (case style_top el of None \<Rightarrow> False | Some t \<Rightarrow> t < - 50))))"
    by (simp add: JS_HONEYPOT_DETECTION_def Let_def object_values_def js_eq_def js_lt_def
          split: option.splits)
  have scenario: "isHoneypot (JS_HONEYPOT_DETECTION w' (e\<lparr>display := ''none''\<rparr>))" for w' e
    by (simp add: JS_HONEYPOT_DETECTION_def Let_def object_values_def)
  have unsafe: "fst (is_element_safe (static_page (e\<lparr>display := ''none''\<rparr>)) selector) = False"
    for e
    using scenario [of desktop_window e]
    by (simp add: is_element_safe_def static_page_def evaluate_def)
  have hidden: "fst (is_element_visible (static_page (e\<lparr>display := ''none''\<rparr>)) selector) = False"
    for e
    by (simp add: is_element_visible_def static_page_def evaluate_def JS_VISIBILITY_CHECK_def)
  let ?e = "el\<lparr>zIndex := Some 0, rect_left := 0, rect_top := 0,
                     rect_right := 0, rect_bottom := 0, rect_width := 0, rect_height := 0\<rparr>"
  have same: "el\<lparr>display := ''none'', zIndex := Some 0, rect_left := 0, rect_top := 0,
                     rect_right := 0, rect_bottom := 0, rect_width := 0, rect_height := 0\<rparr>
               = ?e\<lparr>display := ''none''\<rparr>"
    by simp
  show ?thesis
    unfolding Let_def same
    using general [unfolded matches_trap_letters] scenario [of win ?e] unsafe [of ?e]
      hidden [of ?e]
    by (intro conjI)
qed

text \<open>
  The claim as stated fails on the opacity indicator: a plain block element whose opacity is
  one millionth, with no other indicator, is not flagged and is reported safe.
\<close>

theorem honeypot_faint_opacity_counterexample:
  "opacity faint_element = Some (1/1000000)
   \<and> isHoneypot (JS_HONEYPOT_DETECTION desktop_window faint_element) = False
   \<and> fst (is_element_safe (static_page faint_element) ''a.headline'') = True"
proof -
  have a: "opacity faint_element = Some (1/1000000)" by (simp add: faint_element_def)
  have b: "isHoneypot (JS_HONEYPOT_DETECTION desktop_window faint_element) = False"
    by (simp add: JS_HONEYPOT_DETECTION_def Let_def object_values_def js_eq_def js_lt_def
          faint_element_def desktop_window_def matches_trap_def trap_lexicon_def to_lower_def)
  have c: "fst (is_element_safe (static_page faint_element) ''a.headline'') = True"
    using b by (simp add: is_element_safe_def static_page_def evaluate_def)
  from a b c show ?thesis by (intro conjI)
qed

text \<open>
  Claim C2, as amended. For an element that the page finds and can inspect, the result of
  \<open>is_element_visible\<close> is true exactly when display is not none, visibility is not
  hidden, the parsed opacity is above 0, width and height are above 0 and the z-index
  (0 when it does not parse) is not negative. The intersection with the viewport is
  computed and returned among the checks, but it is not part of the result.
\<close>

theorem is_element_visible_conjunction:
  assumes "query_selector page selector = Inr (Some el)"
    and "evaluate_error page el = None"
  shows "fst (is_element_visible page selector) =
           (display el \<noteq> ''none'' \<and> visibility el \<noteq> ''hidden''
            \<and> (case opacity el of None \<Rightarrow> False | Some v \<Rightarrow> 0 < v)
            \<and> 0 < rect_width el \<and> 0 < rect_height el
            \<and> 0 \<le> (case zIndex el of None \<Rightarrow> 0 | Some z \<Rightarrow> z))
         \<and> snd (is_element_visible page selector)
             = Details (JS_VISIBILITY_CHECK (window page) el)
         \<and> chk_inViewport (JS_VISIBILITY_CHECK (window page) el)
             = (rect_top el < innerHeight (window page) \<and> 0 < rect_bottom el)"
  using assms
  by (simp add: is_element_visible_def evaluate_def JS_VISIBILITY_CHECK_def js_gt_def
        js_or_zero_def split: option.splits)

theorem is_element_visible_conjunction_witness:
  "query_selector (static_page below_fold_element) ''a.headline'' = Inr (Some below_fold_element)
   \<and> evaluate_error (static_page below_fold_element) below_fold_element = None
   \<and> fst (is_element_visible (static_page below_fold_element) ''a.headline'') = True
   \<and> chk_inViewport (JS_VISIBILITY_CHECK desktop_window below_fold_element) = False"
  using is_element_visible_conjunction
          [of "static_page below_fold_element" "''a.headline''" below_fold_element]
  by (simp add: static_page_def below_fold_element_def desktop_window_def)

text \<open>
  The claim as stated fails: the element below the fold of a 1920 by 1080 window passes
  the check although its rectangle does not intersect the viewport.
\<close>

theorem is_element_visible_viewport_counterexample:
  "fst (is_element_visible (static_page below_fold_element) ''a.headline'')
     \<noteq> (display below_fold_element \<noteq> ''none''
         \<and> visibility below_fold_element \<noteq> ''hidden''
         \<and> (case opacity below_fold_element of None \<Rightarrow> False | Some v \<Rightarrow> 0 < v)
         \<and> 0 < rect_width below_fold_element \<and> 0 < rect_height below_fold_element
         \<and> 0 \<le> (case zIndex below_fold_element of None \<Rightarrow> 0 | Some z \<Rightarrow> z)
         \<and> (rect_top below_fold_element < innerHeight desktop_window
              \<and> 0 < rect_bottom below_fold_element))"
  by (simp add: is_element_visible_def evaluate_def JS_VISIBILITY_CHECK_def js_gt_def
        js_or_zero_def static_page_def below_fold_element_def desktop_window_def)

text \<open>
  Claim C8. When the selector finds no element, when the query raises, and when the
  inspection of a found element raises, \<open>is_element_safe\<close> answers not safe and
  \<open>is_element_visible\<close> answers not visible, each with an error record; both functions
  return a pair in every case, so no exception reaches the caller.
\<close>

theorem checks_fail_closed:
  assumes "query_selector page selector = Inr None
           \<or> (\<exists>e. query_selector page selector = Inl e)
           \<or> (\<exists>el e. query_selector page selector = Inr (Some el)
                      \<and> evaluate_error page el = Some e)"
  shows "fst (is_element_safe page selector) = False
         \<and> fst (is_element_visible page selector) = False
         \<and> (\<exists>msg. snd (is_element_safe page selector) = Error msg)
         \<and> (\<exists>msg. snd (is_element_visible page selector) = Error msg)"
  using assms
  by (auto simp: is_element_safe_def is_element_visible_def evaluate_def)

theorem checks_fail_closed_witness:
  "query_selector empty_page ''#gone'' = Inr None
   \<and> is_element_safe empty_page ''#gone'' = (False, Error ''Element not found'')
   \<and> is_element_visible empty_page ''#gone'' = (False, Error ''Element not found'')
   \<and> query_selector failing_page ''#gone'' = Inl (PageError ''Target closed'')
   \<and> fst (is_element_safe failing_page ''#gone'') = False
   \<and> fst (is_element_visible failing_page ''#gone'') = False"
  using checks_fail_closed [of empty_page "''#gone''"]
        checks_fail_closed [of failing_page "''#gone''"]
  by (simp add: empty_page_def failing_page_def is_element_safe_def is_element_visible_def)

section \<open>Properties of burst scrolling\<close>

lemma ViewportInfo_init_fields:
  "ViewportInfo_init [(''width'', a), (''height'', b), (''scroll_y'', c), (''scroll_x'', d),
                      (''max_scroll_y'', e), (''max_scroll_x'', f)]
     = Inr \<lparr>width = a, height = b, scroll_y = c, scroll_x = d,
            max_scroll_y = e, max_scroll_x = f\<rparr>"
  by (simp add: ViewportInfo_init_def ViewportInfo_fields_def)

lemma ViewportInfo_init_snippet: "ViewportInfo_init (JS_VIEWPORT_INFO m) = Inl TypeError"
  by (simp add: ViewportInfo_init_def ViewportInfo_fields_def JS_VIEWPORT_INFO_def)

lemma get_viewport_info_raises:
  "get_viewport_info page w = (case read_window page w of Inl e \<Rightarrow> Inl e | Inr m \<Rightarrow> Inl TypeError)"
  by (simp add: get_viewport_info_def ViewportInfo_init_snippet split: sum.splits)

lemma burst_scroll_stops_at_poll:
  "burst_scroll page num_scrolls reading_behavior sb w g
     = (case read_window page w of Inl e \<Rightarrow> Inl e | Inr m \<Rightarrow> Inl TypeError)"
  by (simp add: burst_scroll_def get_viewport_info_raises split: sum.splits)

lemma scroll_loop_stops_at_poll:
  "scroll_loop page reading_behavior (Suc n) sb w g
     = (case read_window page w of Inl e \<Rightarrow> Inl e | Inr m \<Rightarrow> Inl TypeError)"
  by (simp add: get_viewport_info_raises split: sum.splits)

text \<open>
  Claim C9. \<open>burst_scroll\<close> begins by polling the viewport. The snippet returns an object
  with the keys \<open>scrollY\<close>, \<open>scrollX\<close>, \<open>maxScrollY\<close> and \<open>maxScrollX\<close>, which are not
  fields of \<open>ViewportInfo\<close>, so the constructor raises \<open>TypeError\<close>. For every page,
  every scroll count and every state of the random source the call therefore ends with an
  exception, that of the page if the evaluation itself failed and \<open>TypeError\<close> otherwise,
  before a scroll count is computed or a scroll is issued; so it does on a page of height
  1000 over a document that scrolls 4000 further.
\<close>

theorem burst_scroll_raises:
  "burst_scroll page num_scrolls reading_behavior sb w g
     = (case read_window page w of Inl e \<Rightarrow> Inl e | Inr m \<Rightarrow> Inl TypeError)
   \<and> burst_scroll (long_page 1000) None True \<lparr>current_position = 0\<rparr> () steady_source
       = Inl TypeError"
proof -
  have "burst_scroll (long_page 1000) None True \<lparr>current_position = 0\<rparr> () steady_source
       = Inl TypeError"
    by (subst burst_scroll_stops_at_poll) (simp add: long_page_def)
  then show ?thesis using burst_scroll_stops_at_poll [of page] by (intro conjI)
qed

end
